theory Spec2Isabelle
  imports Complex_Main "HOL-Library.Log_Nat"
begin

section \<open>The ledger store\<close>

text \<open>
  The controllers of \<^verbatim>\<open>controllers.js\<close> work on the Mongoose collections declared in
  \<^verbatim>\<open>models.js\<close>. Conventions of the embedding:
  \<^item> a collection whose documents are never deleted by the controllers (users, investments,
    withdrawals) is the list of its documents in insertion order, and the \<^verbatim>\<open>_id\<close> of a
    document is its position; a reference to a document that does not exist is an index
    beyond the end of the list. Plans can be deleted, so they are a map from ids;
  \<^item> a JavaScript \<^verbatim>\<open>Number\<close> holding money or a rate is the rational value of a finite
    double. The controllers that answer a request (activation, upgrade, withdrawal request
    and rejection) round every sum, difference and product to the nearest double with
    \<open>toDouble\<close>, as the processor does. The daily batch is written with the unrounded
    operations: its theorems are about which documents are written and when, and the
    numbers of its evaluated examples are the ones double arithmetic gives as well;
  \<^item> a \<^verbatim>\<open>Date\<close> is a count of milliseconds on the server's local clock, and every operation
    that reads the clock takes the current instant \<open>now\<close> as an argument. The server's zone
    (Africa/Maputo) has no daylight saving, so a local day is 86400000 ms;
  \<^item> a controller returns the HTTP outcome together with the store it leaves behind, because
    some refusals write before they answer;
  \<^item> \<^verbatim>\<open>doc.save()\<close> writes the fields the controller assigned. The validators of the schemas
    (\<^verbatim>\<open>min\<close>, \<^verbatim>\<open>max\<close>, \<^verbatim>\<open>required\<close>) and failures of the database itself are outside the model.
\<close>

type_synonym objectId = nat
type_synonym date = int

datatype userStatus = Active | Blocked
datatype investmentStatus = InvestmentActive | Completed | Cancelled
datatype requestStatus = Pending | Approved | Rejected

record user =
  phoneNumber :: string
  balance :: rat
  status :: userStatus
  visitorId :: string
  referralCode :: "string option"
  invitedBy :: "string option"
  referredUsers :: "objectId list"
  activeInvestments :: "objectId list"
  withdrawalHistory :: "objectId list"

record investmentPlan =
  minAmount :: rat
  dailyProfitRate :: rat
  durationDays :: int
  isActive :: bool

record investment =
  userId :: objectId
  planId :: objectId
  investedAmount :: rat
  dailyProfitRate :: rat
  startDate :: date
  endDate :: date
  currentProfit :: rat
  lastProfitCreditDate :: "date option"
  status :: investmentStatus

record withdrawal =
  userId :: objectId
  amount :: rat
  walletAddress :: string
  status :: requestStatus
  approvalDate :: "date option"
  adminId :: "objectId option"

record adminConfig =
  isPromotionActive :: bool
  commissionOnPlanActivation :: rat
  commissionOnDailyProfit :: rat
  withdrawalStartTime :: string
  withdrawalEndTime :: string
  minWithdrawalAmount :: rat
  maxWithdrawalAmount :: rat

record ledger =
  users :: "user list"
  plans :: "objectId \<rightharpoonup> investmentPlan"
  investments :: "investment list"
  withdrawals :: "withdrawal list"
  adminConfig :: "adminConfig option"

text \<open>
  The refusals of the controllers, one constructor per \<^verbatim>\<open>return res.status(...)\<close> message, and
  the status code each one carries. \<open>ServerError\<close> is the \<^verbatim>\<open>catch\<close> block of a controller.
\<close>

datatype failure =
    MissingFields
  | InvalidPhoneNumber
  | DuplicateVisitorId
  | PhoneNumberTaken
  | ReferralCodesExhausted
  | NotFound
  | ActiveInvestmentExists
  | InvalidAmount
  | InsufficientFunds
  | NoActiveInvestment
  | InvalidActiveInvestment
  | PriceNotHigher
  | NonPositiveAmount
  | OutsideWithdrawalWindow
  | BelowMinWithdrawal
  | AboveMaxWithdrawal
  | NotPending
  | ServerError

fun httpStatus :: "failure \<Rightarrow> nat" where
  "httpStatus DuplicateVisitorId = 403"
| "httpStatus NotFound = 404"
| "httpStatus ServerError = 500"
| "httpStatus ReferralCodesExhausted = 500"
| "httpStatus _ = 400"

subsection \<open>Double arithmetic\<close>

text \<open>
  A finite double is \<open>m * 2 ^ e\<close> with \<open>\<bar>m\<bar> < 2 ^ 53\<close> and \<open>e \<ge> - 1074\<close>. The result of
  \<^verbatim>\<open>+\<close>, \<^verbatim>\<open>-\<close> and \<^verbatim>\<open>*\<close> on doubles is the exact result rounded to the nearest double,
  ties to the even significand: \<open>toDouble\<close> scales the magnitude to 53 bits (fewer below
  \<open>2 ^ - 1022\<close>, where the exponent stays at \<open>- 1074\<close>), rounds it to an integer and scales
  back. Magnitudes beyond the largest double (about 1.8e308), which JavaScript turns into
  \<^verbatim>\<open>Infinity\<close>, are outside the model.
\<close>

definition pow2 :: "int \<Rightarrow> rat" where
  "pow2 e = (if 0 \<le> e then 2 ^ nat e else 1 / 2 ^ nat (- e))"

definition floorLog2 :: "rat \<Rightarrow> int" where
  "floorLog2 a = (if 1 \<le> a then bitlen \<lfloor>a\<rfloor> - 1 else - bitlen (\<lceil>1 / a\<rceil> - 1))"

definition roundHalfEven :: "rat \<Rightarrow> int" where
  "roundHalfEven x =
     (let f = \<lfloor>x\<rfloor>; d = x - of_int f
      in if d < 1 / 2 then f else if 1 / 2 < d then f + 1 else if even f then f else f + 1)"

definition toDouble :: "rat \<Rightarrow> rat" where
  "toDouble x =
     (if x = 0 then 0
      else let e = max (floorLog2 \<bar>x\<bar> - 52) (- 1074)
           in sgn x * of_int (roundHalfEven (\<bar>x\<bar> / pow2 e)) * pow2 e)"

subsection \<open>Queries\<close>

definition findById :: "'a list \<Rightarrow> objectId \<Rightarrow> 'a option" where
  "findById xs i = (if i < length xs then Some (xs ! i) else None)"

fun findIndex :: "('a \<Rightarrow> bool) \<Rightarrow> 'a list \<Rightarrow> nat option" where
  "findIndex P [] = None"
| "findIndex P (x # xs) = (if P x then Some 0 else map_option Suc (findIndex P xs))"

text \<open>\<^verbatim>\<open>User.findOne({ referralCode: code })\<close>: the id of the first user holding the code.\<close>

definition findOneByReferralCode :: "user list \<Rightarrow> string \<Rightarrow> objectId option" where
  "findOneByReferralCode us code = findIndex (\<lambda>u. referralCode u = Some code) us"

text \<open>\<^verbatim>\<open>endDate.setDate(endDate.getDate() + days)\<close> on the local calendar.\<close>

definition addDays :: "date \<Rightarrow> int \<Rightarrow> date" where
  "addDays d days = d + days * 86400000"

text \<open>\<^verbatim>\<open>today.setHours(0, 0, 0, 0)\<close>: the local midnight that opens the day of \<open>now\<close>.\<close>

definition startOfDay :: "date \<Rightarrow> date" where
  "startOfDay now = now - now mod 86400000"

section \<open>Investment lifecycle\<close>

text \<open>
  The commission block that closes both \<^verbatim>\<open>activateInvestment\<close> and \<^verbatim>\<open>upgradeInvestment\<close>
  (the two copies differ in the base amount only): it runs after \<^verbatim>\<open>user.save()\<close>, reads the
  inviter afresh by referral code and credits \<^verbatim>\<open>amount * commissionRate\<close> with
  \<^verbatim>\<open>inviter.balance += commissionAmount\<close>, a double product and a double sum. The test on
  the inviter is \<^verbatim>\<open>if (inviter)\<close>: the inviter's status is not read.
\<close>

definition creditActivationCommission :: "user \<Rightarrow> rat \<Rightarrow> ledger \<Rightarrow> ledger" where
  "creditActivationCommission usr amt db =
     (case (invitedBy usr, adminConfig db) of
        (Some code, Some cfg) \<Rightarrow>
          if code \<noteq> [] \<and> isPromotionActive cfg \<and> commissionOnPlanActivation cfg > 0 then
            (case findOneByReferralCode (users db) code of
               Some rid \<Rightarrow>
                 db\<lparr>users := (users db)[rid := (users db ! rid)
                       \<lparr>balance := toDouble (balance (users db ! rid)
                                              + toDouble (amt * commissionOnPlanActivation cfg))\<rparr>]\<rparr>
             | None \<Rightarrow> db)
          else db
      | _ \<Rightarrow> db)"

definition activateInvestment ::
    "date \<Rightarrow> objectId \<Rightarrow> objectId option \<Rightarrow> ledger \<Rightarrow> (failure + objectId \<times> investment) \<times> ledger" where
  "activateInvestment now uid planIdOpt db =
     (case planIdOpt of
        None \<Rightarrow> (Inl MissingFields, db)
      | Some pid \<Rightarrow>
         (case (findById (users db) uid, plans db pid) of
            (Some usr, Some plan) \<Rightarrow>
              if \<not> isActive plan then (Inl NotFound, db)
              else if activeInvestments usr \<noteq> [] then (Inl ActiveInvestmentExists, db)
              else if minAmount plan \<le> 0 then (Inl InvalidAmount, db)
              else if balance usr < minAmount plan then (Inl InsufficientFunds, db)
              else
                let amt = minAmount plan;
                    newInv = \<lparr>investment.userId = uid, planId = pid, investedAmount = amt,
                           investment.dailyProfitRate = investmentPlan.dailyProfitRate plan,
                           startDate = now, endDate = addDays now (durationDays plan),
                           currentProfit = 0, lastProfitCreditDate = Some now,
                           investment.status = InvestmentActive\<rparr>;
                    iid = length (investments db);
                    usr' = usr\<lparr>balance := toDouble (balance usr - amt),
                               activeInvestments := activeInvestments usr @ [iid]\<rparr>;
                    db1 = db\<lparr>investments := investments db @ [newInv],
                             users := (users db)[uid := usr']\<rparr>
                in (Inr (iid, newInv), creditActivationCommission usr' amt db1)
          | _ \<Rightarrow> (Inl NotFound, db)))"

text \<open>
  \<^verbatim>\<open>upgradeInvestment\<close>. The current investment is loaded with its plan populated; the plan's
  name is read when the refusal message of the price check is built and again in the log
  line after both saves, so a current plan that no longer exists raises there and the
  \<^verbatim>\<open>catch\<close> block answers 500: before any write in the first place, after the debit and
  before the commission in the second.
\<close>

definition upgradeInvestment ::
    "date \<Rightarrow> objectId \<Rightarrow> objectId option \<Rightarrow> ledger \<Rightarrow> (failure + investment) \<times> ledger" where
  "upgradeInvestment now uid newPlanIdOpt db =
     (case newPlanIdOpt of
        None \<Rightarrow> (Inl MissingFields, db)
      | Some newPid \<Rightarrow>
         (case (findById (users db) uid, plans db newPid) of
            (Some usr, Some newPlan) \<Rightarrow>
              if \<not> isActive newPlan then (Inl NotFound, db)
              else
               (case activeInvestments usr of
                  [] \<Rightarrow> (Inl NoActiveInvestment, db)
                | iid # _ \<Rightarrow>
                   (case findById (investments db) iid of
                      None \<Rightarrow>
                        (Inl InvalidActiveInvestment,
                         db\<lparr>users := (users db)[uid := usr
                               \<lparr>activeInvestments := filter (\<lambda>i. i \<noteq> iid) (activeInvestments usr)\<rparr>]\<rparr>)
                    | Some activeInvestment \<Rightarrow>
                        let currentPlan = plans db (planId activeInvestment);
                            currentAmount = investedAmount activeInvestment;
                            newAmount = minAmount newPlan
                        in
                        if newAmount \<le> currentAmount then
                          (if currentPlan = None then (Inl ServerError, db)
                           else (Inl PriceNotHigher, db))
                        else
                          let priceDifference = toDouble (newAmount - currentAmount) in
                          if balance usr < priceDifference then (Inl InsufficientFunds, db)
                          else
                            let usr' = usr\<lparr>balance := toDouble (balance usr - priceDifference)\<rparr>;
                                inv' = activeInvestment
                                  \<lparr>planId := newPid, investedAmount := newAmount,
                                   investment.dailyProfitRate := investmentPlan.dailyProfitRate newPlan,
                                   endDate := addDays now (durationDays newPlan),
                                   lastProfitCreditDate := Some now\<rparr>;
                                db1 = db\<lparr>investments := (investments db)[iid := inv'],
                                         users := (users db)[uid := usr']\<rparr>
                            in
                            if currentPlan = None then (Inl ServerError, db1)
                            else (Inr inv', creditActivationCommission usr' priceDifference db1)))
          | _ \<Rightarrow> (Inl NotFound, db)))"

section \<open>Withdrawals\<close>

text \<open>
  \<^verbatim>\<open>isWithdrawalTimeAllowed\<close> reads the local hour and minute of \<open>now\<close> and parses both
  configured times with \<^verbatim>\<open>timeStr.split(':').map(Number)\<close>. \<open>jsNumber\<close> is \<^verbatim>\<open>Number\<close> on
  strings of decimal digits (the empty string is 0) and answers \<open>None\<close> for \<^verbatim>\<open>NaN\<close>; on strings
  with blanks, signs, a decimal point or an exponent JavaScript still finds a number where
  this model answers \<open>None\<close>, and the schema's validator \<^verbatim>\<open>/^\d{2}:\d{2}$/\<close> keeps such strings
  out of the configuration, so the theorems below take both times in that format.
\<close>

fun splitOn :: "char \<Rightarrow> string \<Rightarrow> string list" where
  "splitOn c [] = [[]]"
| "splitOn c (x # xs) =
     (if x = c then [] # splitOn c xs
      else (case splitOn c xs of w # ws \<Rightarrow> (x # w) # ws | [] \<Rightarrow> [[x]]))"

definition isDigit :: "char \<Rightarrow> bool" where
  "isDigit c = (48 \<le> (of_char c :: nat) \<and> (of_char c :: nat) \<le> 57)"

definition digitValue :: "char \<Rightarrow> int" where
  "digitValue c = int (of_char c) - 48"

definition jsNumber :: "string \<Rightarrow> int option" where
  "jsNumber s = (if list_all isDigit s then Some (foldl (\<lambda>acc c. acc * 10 + digitValue c) 0 s)
                 else None)"

definition parseTime :: "string \<Rightarrow> int" where
  "parseTime timeStr =
     (case map jsNumber (splitOn CHR '':'' timeStr) of
        Some hour # Some minute # _ \<Rightarrow> hour * 60 + minute
      | _ \<Rightarrow> - 1)"

definition currentTimeInMinutes :: "date \<Rightarrow> int" where
  "currentTimeInMinutes now = (now div 3600000) mod 24 * 60 + (now div 60000) mod 60"

definition isWithdrawalTimeAllowed :: "date \<Rightarrow> string \<Rightarrow> string \<Rightarrow> bool" where
  "isWithdrawalTimeAllowed now startTime endTime =
     (let startTimeInMinutes = parseTime startTime;
          endTimeInMinutes = parseTime endTime
      in if startTimeInMinutes = - 1 \<or> endTimeInMinutes = - 1 then True
         else currentTimeInMinutes now \<ge> startTimeInMinutes
              \<and> currentTimeInMinutes now \<le> endTimeInMinutes)"

text \<open>
  The format the schema's validator accepts for both configured times, and the minute of
  the day such a string names, written from its four digits.
\<close>

definition validTimeString :: "string \<Rightarrow> bool" where
  "validTimeString s =
     (case s of
        [h1, h2, c, m1, m2] \<Rightarrow> isDigit h1 \<and> isDigit h2 \<and> c = CHR '':'' \<and> isDigit m1 \<and> isDigit m2
      | _ \<Rightarrow> False)"

definition clockMinutes :: "string \<Rightarrow> int" where
  "clockMinutes s =
     (digitValue (s ! 0) * 10 + digitValue (s ! 1)) * 60 + (digitValue (s ! 3) * 10 + digitValue (s ! 4))"

text \<open>
  \<^verbatim>\<open>requestWithdrawal\<close>. The balance is debited in memory and \<^verbatim>\<open>Withdrawal.create\<close> runs
  before \<^verbatim>\<open>user.save()\<close>. The withdrawal schema trims \<^verbatim>\<open>walletAddress\<close> and then requires
  it, and requires \<^verbatim>\<open>amount\<close> to be at least 1: a wallet of blanks only, or an amount below
  1, makes \<^verbatim>\<open>create\<close> raise, the \<^verbatim>\<open>catch\<close> block answers 500 and the debit is never
  saved. A character of the model is a code unit below 256, and \<open>jsTrim\<close> is
  \<^verbatim>\<open>String.prototype.trim\<close> on such strings: it removes tab, line feed, vertical tab, form
  feed, carriage return, space and the no-break space U+00A0 from both ends. The blanks
  with higher code units (U+1680, U+2000 to U+200A and others) are outside the model.
\<close>

definition isSpace :: "char \<Rightarrow> bool" where
  "isSpace c =
     ((9 \<le> (of_char c :: nat) \<and> (of_char c :: nat) \<le> 13)
      \<or> (of_char c :: nat) = 32 \<or> (of_char c :: nat) = 160)"

definition jsTrim :: "string \<Rightarrow> string" where
  "jsTrim s = rev (dropWhile isSpace (rev (dropWhile isSpace s)))"

definition requestWithdrawal ::
    "date \<Rightarrow> objectId \<Rightarrow> rat \<Rightarrow> string \<Rightarrow> ledger \<Rightarrow> (failure + objectId \<times> withdrawal) \<times> ledger" where
  "requestWithdrawal now uid amt wallet db =
     (if amt = 0 \<or> wallet = [] then (Inl MissingFields, db)
      else if amt \<le> 0 then (Inl NonPositiveAmount, db)
      else
       (case findById (users db) uid of
          None \<Rightarrow> (Inl NotFound, db)
        | Some usr \<Rightarrow>
            if (case adminConfig db of
                  Some cfg \<Rightarrow> withdrawalStartTime cfg \<noteq> [] \<and> withdrawalEndTime cfg \<noteq> []
                     \<and> \<not> isWithdrawalTimeAllowed now (withdrawalStartTime cfg) (withdrawalEndTime cfg)
                | None \<Rightarrow> False)
            then (Inl OutsideWithdrawalWindow, db)
            else if amt < (case adminConfig db of Some cfg \<Rightarrow> minWithdrawalAmount cfg | None \<Rightarrow> 1)
            then (Inl BelowMinWithdrawal, db)
            else if (case adminConfig db of Some cfg \<Rightarrow> amt > maxWithdrawalAmount cfg | None \<Rightarrow> False)
            then (Inl AboveMaxWithdrawal, db)
            else if balance usr < amt then (Inl InsufficientFunds, db)
            else if jsTrim wallet = [] \<or> amt < 1 then (Inl ServerError, db)
            else
              let wid = length (withdrawals db);
                  w = \<lparr>withdrawal.userId = uid, amount = amt, walletAddress = jsTrim wallet,
                       withdrawal.status = Pending, approvalDate = None, adminId = None\<rparr>;
                  usr' = usr\<lparr>balance := toDouble (balance usr - amt),
                             withdrawalHistory := withdrawalHistory usr @ [wid]\<rparr>
              in (Inr (wid, w),
                  db\<lparr>withdrawals := withdrawals db @ [w], users := (users db)[uid := usr']\<rparr>)))"

definition approveWithdrawal ::
    "date \<Rightarrow> objectId \<Rightarrow> objectId \<Rightarrow> ledger \<Rightarrow> (failure + withdrawal) \<times> ledger" where
  "approveWithdrawal now admin wid db =
     (case findById (withdrawals db) wid of
        None \<Rightarrow> (Inl NotFound, db)
      | Some w \<Rightarrow>
          if withdrawal.status w \<noteq> Pending then (Inl NotPending, db)
          else
            let w' = w\<lparr>withdrawal.status := Approved, approvalDate := Some now,
                       adminId := Some admin\<rparr>
            in (Inr w', db\<lparr>withdrawals := (withdrawals db)[wid := w']\<rparr>))"

definition rejectWithdrawal ::
    "date \<Rightarrow> objectId \<Rightarrow> objectId \<Rightarrow> ledger \<Rightarrow> (failure + withdrawal) \<times> ledger" where
  "rejectWithdrawal now admin wid db =
     (case findById (withdrawals db) wid of
        None \<Rightarrow> (Inl NotFound, db)
      | Some w \<Rightarrow>
          if withdrawal.status w \<noteq> Pending then (Inl NotPending, db)
          else
            let w' = w\<lparr>withdrawal.status := Rejected, approvalDate := Some now,
                       adminId := Some admin\<rparr>;
                db1 = db\<lparr>withdrawals := (withdrawals db)[wid := w']\<rparr>
            in (case findById (users db1) (withdrawal.userId w) of
                  Some usr \<Rightarrow>
                    (Inr w', db1\<lparr>users := (users db1)[withdrawal.userId w :=
                                     usr\<lparr>balance := toDouble (balance usr + amount w)\<rparr>]\<rparr>)
                | None \<Rightarrow> (Inr w', db1)))"

section \<open>Registration\<close>

text \<open>
  \<^verbatim>\<open>registerUser\<close>. \<^verbatim>\<open>generateReferralCode\<close> draws random codes until one is unused; the model
  is given the codes that would be drawn, in order, and answers \<open>ReferralCodesExhausted\<close>
  when none of them is free (the loop of the source would still be running).
\<close>

definition validPhoneNumber :: "string \<Rightarrow> bool" where
  "validPhoneNumber s = (length s = 9 \<and> list_all isDigit s)"

text \<open>
  The loop over the accounts found with the visitor id: an account whose document says
  \<^verbatim>\<open>active\<close> has its status field saved as \<^verbatim>\<open>blocked\<close>.
\<close>

fun blockAccounts :: "objectId list \<Rightarrow> user list \<Rightarrow> user list" where
  "blockAccounts [] us = us"
| "blockAccounts (i # ids) us =
     blockAccounts ids
       (if user.status (us ! i) = Active then us[i := (us ! i)\<lparr>user.status := Blocked\<rparr>] else us)"

text \<open>
  Step 6 of \<^verbatim>\<open>registerUser\<close>: the inviter is the user holding the invite code, unless the
  code is absent or empty, nobody holds it, or the holder has the visitor id of the request.
\<close>

definition resolveInviter :: "user list \<Rightarrow> string \<Rightarrow> string option \<Rightarrow> objectId option" where
  "resolveInviter us visitor inviteCode =
     (case inviteCode of
        None \<Rightarrow> None
      | Some ic \<Rightarrow>
          if ic = [] then None
          else (case findOneByReferralCode us ic of
                  None \<Rightarrow> None
                | Some rid \<Rightarrow> if visitorId (us ! rid) = visitor then None else Some rid))"

definition registerUser ::
    "string \<Rightarrow> string \<Rightarrow> string \<Rightarrow> string option \<Rightarrow> string list \<Rightarrow> ledger
       \<Rightarrow> (failure + objectId) \<times> ledger" where
  "registerUser phone password visitor inviteCode codes db =
     (if phone = [] \<or> password = [] \<or> visitor = [] then (Inl MissingFields, db)
      else if \<not> validPhoneNumber phone then (Inl InvalidPhoneNumber, db)
      else
        let existing = filter (\<lambda>i. visitorId (users db ! i) = visitor) [0..<length (users db)] in
        if existing \<noteq> [] then
          (Inl DuplicateVisitorId, db\<lparr>users := blockAccounts existing (users db)\<rparr>)
        else if findIndex (\<lambda>u. phoneNumber u = phone) (users db) \<noteq> None then
          (Inl PhoneNumberTaken, db)
        else
         (case dropWhile (\<lambda>c. findOneByReferralCode (users db) c \<noteq> None) codes of
            [] \<Rightarrow> (Inl ReferralCodesExhausted, db)
          | code # _ \<Rightarrow>
              let invitingUser = resolveInviter (users db) visitor inviteCode;
                  newId = length (users db);
                  newUser = \<lparr>phoneNumber = phone, balance = 0, user.status = Active,
                             visitorId = visitor, referralCode = Some code,
                             invitedBy = (case invitingUser of
                                            None \<Rightarrow> None
                                          | Some rid \<Rightarrow> referralCode (users db ! rid)),
                             referredUsers = [], activeInvestments = [],
                             withdrawalHistory = []\<rparr>;
                  us1 = users db @ [newUser];
                  us2 = (case invitingUser of
                           None \<Rightarrow> us1
                         | Some rid \<Rightarrow>
                             us1[rid := (us1 ! rid)
                                   \<lparr>referredUsers := referredUsers (us1 ! rid) @ [newId]\<rparr>])
              in (Inr newId, db\<lparr>users := us2\<rparr>)))"

section \<open>The daily batch\<close>

text \<open>
  \<^verbatim>\<open>processDailyProfitsAndCommissions\<close>. The query selects the investments that are active
  and were last credited before today's midnight (or never), and \<^verbatim>\<open>populate('userId')\<close>
  loads the owners' documents once, before the loop starts: investments of one owner share
  one document. The loop therefore runs on a pair: the store, and the owners' documents as
  they are held in memory (\<open>docs\<close>, the users as they were when the query ran, changed only
  by the loop's own assignments). An inviter, in contrast, is read from the store with
  \<^verbatim>\<open>User.findOne\<close> at the moment the commission is paid.

  \<^verbatim>\<open>save()\<close> sends the fields whose value changed since the document was loaded or last
  saved: \<^verbatim>\<open>user.save()\<close> after \<^verbatim>\<open>user.balance += dailyProfit\<close> stores the balance held in
  memory (nothing when the profit is 0), and after the assignment of the filtered
  \<^verbatim>\<open>activeInvestments\<close> it stores that list.
\<close>

definition dueForCredit :: "date \<Rightarrow> investment \<Rightarrow> bool" where
  "dueForCredit today ivt =
     (investment.status ivt = InvestmentActive
      \<and> (case lastProfitCreditDate ivt of None \<Rightarrow> True | Some d \<Rightarrow> d < today))"

definition findDue :: "date \<Rightarrow> investment list \<Rightarrow> (objectId \<times> investment) list" where
  "findDue today ivts =
     map (\<lambda>k. (k, ivts ! k)) (filter (\<lambda>k. dueForCredit today (ivts ! k)) [0..<length ivts])"

definition creditDailyCommission :: "bool \<Rightarrow> rat \<Rightarrow> user \<Rightarrow> rat \<Rightarrow> ledger \<Rightarrow> ledger" where
  "creditDailyCommission promotionActive commissionRate usr dailyProfit db =
     (case invitedBy usr of
        None \<Rightarrow> db
      | Some code \<Rightarrow>
          if promotionActive \<and> commissionRate > 0 \<and> code \<noteq> [] then
            (case findOneByReferralCode (users db) code of
               None \<Rightarrow> db
             | Some rid \<Rightarrow>
                 if user.status (users db ! rid) = Active then
                   db\<lparr>users := (users db)[rid := (users db ! rid)
                         \<lparr>balance := balance (users db ! rid) + dailyProfit * commissionRate\<rparr>]\<rparr>
                 else db)
          else db)"

definition completeInvestment :: "objectId \<Rightarrow> ledger \<Rightarrow> ledger" where
  "completeInvestment iid db =
     db\<lparr>investments := (investments db)[iid := (investments db ! iid)
           \<lparr>investment.status := Completed\<rparr>]\<rparr>"

definition processInvestment ::
    "date \<Rightarrow> bool \<Rightarrow> rat \<Rightarrow> ledger \<times> user list \<Rightarrow> objectId \<times> investment \<Rightarrow> ledger \<times> user list" where
  "processInvestment today promotionActive commissionRate st item =
     (let db = fst st; docs = snd st; iid = fst item; ivt = snd item;
          uid = investment.userId ivt;
          ownerUsable = (case findById docs uid of
                           None \<Rightarrow> False
                         | Some usr \<Rightarrow> user.status usr \<noteq> Blocked)
      in
      if \<not> ownerUsable then
        (if endDate ivt \<le> today then (completeInvestment iid db, docs) else (db, docs))
      else
        let usr = docs ! uid in
        if endDate ivt \<le> today then
          let remaining = filter (\<lambda>i. i \<noteq> iid) (activeInvestments usr);
              db1 = completeInvestment iid db;
              db2 = (if remaining \<noteq> activeInvestments usr
                     then db1\<lparr>users := (users db1)[uid := (users db1 ! uid)
                                \<lparr>activeInvestments := remaining\<rparr>]\<rparr>
                     else db1)
          in (db2, docs[uid := usr\<lparr>activeInvestments := remaining\<rparr>])
        else
          let dailyProfit = investedAmount ivt * investment.dailyProfitRate ivt;
              usr' = usr\<lparr>balance := balance usr + dailyProfit\<rparr>;
              db1 = creditDailyCommission promotionActive commissionRate usr' dailyProfit db;
              db2 = db1\<lparr>investments := (investments db1)[iid := (investments db1 ! iid)
                         \<lparr>currentProfit := currentProfit ivt + dailyProfit,
                          lastProfitCreditDate := Some today\<rparr>]\<rparr>;
              db3 = (if dailyProfit \<noteq> 0
                     then db2\<lparr>users := (users db2)[uid := (users db2 ! uid)
                                \<lparr>balance := balance usr'\<rparr>]\<rparr>
                     else db2)
          in (db3, docs[uid := usr']))"

definition processDailyProfitsAndCommissions :: "date \<Rightarrow> ledger \<Rightarrow> ledger" where
  "processDailyProfitsAndCommissions now db =
     (let today = startOfDay now;
          due = findDue today (investments db);
          promotionActive = (case adminConfig db of
                               Some cfg \<Rightarrow> isPromotionActive cfg | None \<Rightarrow> False);
          commissionRate = (case adminConfig db of
                              Some cfg \<Rightarrow> commissionOnDailyProfit cfg | None \<Rightarrow> 0)
      in fst (foldl (processInvestment today promotionActive commissionRate) (db, users db) due))"

text \<open>The batch run on each of a list of instants, one run after the other.\<close>

definition runBatches :: "date list \<Rightarrow> ledger \<Rightarrow> ledger" where
  "runBatches nows db = foldl (\<lambda>d now. processDailyProfitsAndCommissions now d) db nows"

text \<open>
  What one pass of the loop body leaves in the row of the investment it handles, given the
  statuses of the owners' documents: the row is closed when the end date has come, credited
  and dated when the owner is found and not blocked, and left alone otherwise.
\<close>

definition ownerUsable :: "userStatus list \<Rightarrow> objectId \<Rightarrow> bool" where
  "ownerUsable statuses uid = (uid < length statuses \<and> statuses ! uid \<noteq> Blocked)"

definition rowAfter :: "date \<Rightarrow> userStatus list \<Rightarrow> investment \<Rightarrow> investment \<Rightarrow> investment" where
  "rowAfter today statuses ivt row =
     (if endDate ivt \<le> today then row\<lparr>investment.status := Completed\<rparr>
      else if ownerUsable statuses (investment.userId ivt)
      then row\<lparr>currentProfit := currentProfit ivt + investedAmount ivt * investment.dailyProfitRate ivt,
               lastProfitCreditDate := Some today\<rparr>
      else row)"

text \<open>
  The loop keeps the owners' documents and the store in step on the lists of active
  investments: both start equal and the loop assigns the same filtered list to both.
\<close>

definition docsAgree :: "ledger \<times> user list \<Rightarrow> bool" where
  "docsAgree st = (map activeInvestments (users (fst st)) = map activeInvestments (snd st))"

text \<open>
  The controllers keep the date of the last credit of an investment before its end date:
  activation and upgrade set it to \<open>now\<close> with the end date a positive number of days later
  (the duration of a plan is the schema's default, 60 days, and no controller sets it),
  and the batch sets it to today's midnight only on an investment whose end date is later.
\<close>

definition creditedBeforeEnd :: "investment \<Rightarrow> bool" where
  "creditedBeforeEnd ivt =
     (case lastProfitCreditDate ivt of None \<Rightarrow> True | Some d \<Rightarrow> d < endDate ivt)"

section \<open>Example ledgers\<close>

text \<open>
  The scenario of the specification: user A (id 0, balance 1000) was invited by R (id 1),
  the basic plan costs 500 at 2% a day for 60 days, the activation commission is 5% and the
  daily commission 2%, withdrawals are open from 08:00 to 18:00.
\<close>

definition planBasic :: investmentPlan where
  "planBasic = \<lparr>minAmount = 500, dailyProfitRate = 1 / 50, durationDays = 60, isActive = True\<rparr>"

definition planPlus :: investmentPlan where
  "planPlus = \<lparr>minAmount = 1000, dailyProfitRate = 3 / 100, durationDays = 60, isActive = True\<rparr>"

definition configDefault :: adminConfig where
  "configDefault = \<lparr>isPromotionActive = True, commissionOnPlanActivation = 1 / 20,
                     commissionOnDailyProfit = 1 / 50, withdrawalStartTime = ''08:00'',
                     withdrawalEndTime = ''18:00'', minWithdrawalAmount = 1,
                     maxWithdrawalAmount = 5000\<rparr>"

definition userA :: user where
  "userA = \<lparr>phoneNumber = ''840000001'', balance = 1000, user.status = Active,
             visitorId = ''device-a'', referralCode = Some ''AAAAAAA1'',
             invitedBy = Some ''RRRRRRR1'', referredUsers = [], activeInvestments = [],
             withdrawalHistory = []\<rparr>"

definition userR :: user where
  "userR = \<lparr>phoneNumber = ''840000002'', balance = 100, user.status = Active,
             visitorId = ''device-r'', referralCode = Some ''RRRRRRR1'',
             invitedBy = None, referredUsers = [0], activeInvestments = [],
             withdrawalHistory = []\<rparr>"

definition ledgerAR :: ledger where
  "ledgerAR = \<lparr>users = [userA, userR], plans = [0 \<mapsto> planBasic, 1 \<mapsto> planPlus],
                investments = [], withdrawals = [], adminConfig = Some configDefault\<rparr>"

text \<open>The same ledger with the referrer R blocked.\<close>

definition ledgerBlockedR :: ledger where
  "ledgerBlockedR = ledgerAR\<lparr>users := [userA, userR\<lparr>user.status := Blocked\<rparr>]\<rparr>"

text \<open>A ledger in which A (balance 1500) holds the basic plan, bought at instant 0.\<close>

definition investmentA :: investment where
  "investmentA = \<lparr>investment.userId = 0, planId = 0, investedAmount = 500,
                   investment.dailyProfitRate = 1 / 50, startDate = 0, endDate = 5184000000,
                   currentProfit = 0, lastProfitCreditDate = Some 0,
                   investment.status = InvestmentActive\<rparr>"

definition ledgerInvested :: ledger where
  "ledgerInvested = \<lparr>users = [userA\<lparr>balance := 1500, activeInvestments := [0]\<rparr>, userR],
                      plans = [0 \<mapsto> planBasic, 1 \<mapsto> planPlus],
                      investments = [investmentA], withdrawals = [],
                      adminConfig = Some configDefault\<rparr>"

text \<open>
  A ledger whose only user is blocked and holds the basic plan, which ended on day 60.
\<close>

definition ledgerBlockedOwner :: ledger where
  "ledgerBlockedOwner =
     \<lparr>users = [userA\<lparr>user.status := Blocked, balance := 500, activeInvestments := [0]\<rparr>],
      plans = [0 \<mapsto> planBasic], investments = [investmentA], withdrawals = [],
      adminConfig = Some configDefault\<rparr>"

text \<open>
  A ledger in which both the referrer R (id 0, balance 100) and the user A she invited
  (id 1, balance 500) hold the basic plan; A bought first, so A's investment is the first
  document of the collection and R's the second.
\<close>

definition ledgerTwoInvestors :: ledger where
  "ledgerTwoInvestors =
     \<lparr>users = [userR\<lparr>referredUsers := [1], activeInvestments := [1]\<rparr>,
               userA\<lparr>balance := 500, activeInvestments := [0]\<rparr>],
      plans = [0 \<mapsto> planBasic],
      investments = [investmentA\<lparr>investment.userId := 1\<rparr>,
                     investmentA\<lparr>investment.userId := 0\<rparr>],
      withdrawals = [], adminConfig = Some configDefault\<rparr>"

text \<open>
  Ledgers with fractional numbers. In the first the activation commission is the double
  written \<^verbatim>\<open>0.07\<close>, the plan costs 300 and R starts with nothing. In the second A's balance is
  the double written \<^verbatim>\<open>3.4\<close>.
\<close>

definition ledgerRounding :: ledger where
  "ledgerRounding =
     \<lparr>users = [userA, userR\<lparr>balance := 0\<rparr>],
      plans = [0 \<mapsto> planBasic\<lparr>minAmount := 300\<rparr>],
      investments = [], withdrawals = [],
      adminConfig = Some (configDefault\<lparr>commissionOnPlanActivation := toDouble (7 / 100)\<rparr>)\<rparr>"

definition ledgerFractional :: ledger where
  "ledgerFractional = ledgerAR\<lparr>users := [userA\<lparr>balance := toDouble (17 / 5)\<rparr>, userR]\<rparr>"

section \<open>Properties\<close>

lemma findIndex_Some: "findIndex P xs = Some i \<Longrightarrow> i < length xs \<and> P (xs ! i)"
  by (induction xs arbitrary: i) (auto split: if_splits)

subsection \<open>Lookups\<close>

lemmas example_defs = ledgerAR_def ledgerBlockedR_def ledgerInvested_def investmentA_def userA_def userR_def
  ledgerRounding_def ledgerFractional_def
  planBasic_def planPlus_def configDefault_def

lemma double_facts:
  "toDouble 25 = 25" "toDouble 100 = 100" "toDouble 125 = 125" "toDouble 200 = 200"
  "toDouble 500 = 500" "toDouble 700 = 700" "toDouble 800 = 800" "toDouble 1000 = 1000"
  "toDouble (7 / 100) = 1261007895663739 / 18014398509481984"
  "toDouble (17 / 5) = 7656119366529843 / 2251799813685248"
  "toDouble (6 / 5) = 5404319552844595 / 4503599627370496"
  by code_simp+

lemmas lifecycle_defs = activateInvestment_def upgradeInvestment_def findById_def
  creditActivationCommission_def findOneByReferralCode_def addDays_def Let_def

lemma findIndex_update:
  "P v = P (xs ! i) \<Longrightarrow> findIndex P (xs[i := v]) = findIndex P xs"
proof (induction xs arbitrary: i)
  case Nil
  then show ?case by simp
next
  case (Cons x xs)
  then show ?case by (cases i) auto
qed

lemma findOneByReferralCode_update:
  "referralCode v = referralCode (us ! i) \<Longrightarrow>
     findOneByReferralCode (us[i := v]) code = findOneByReferralCode us code"
  unfolding findOneByReferralCode_def by (rule findIndex_update) simp

lemma findOneByReferralCode_less:
  "findOneByReferralCode us code = Some rid \<Longrightarrow> rid < length us"
  unfolding findOneByReferralCode_def by (drule findIndex_Some) simp

lemma findById_Some: "findById xs i = Some x \<longleftrightarrow> i < length xs \<and> xs ! i = x"
  by (auto simp: findById_def)

lemma findById_None: "findById xs i = None \<longleftrightarrow> length xs \<le> i"
  by (auto simp: findById_def)

lemma activate_success:
  assumes "activateInvestment now uid (Some pid) db = (Inr (iid, ivt), db')"
  obtains usr plan where "findById (users db) uid = Some usr" "plans db pid = Some plan"
    "isActive plan" "activeInvestments usr = []" "0 < minAmount plan" "minAmount plan \<le> balance usr"
    "iid = length (investments db)"
    "ivt = \<lparr>investment.userId = uid, planId = pid, investedAmount = minAmount plan,
                           investment.dailyProfitRate = investmentPlan.dailyProfitRate plan,
                           startDate = now, endDate = addDays now (durationDays plan),
                           currentProfit = 0, lastProfitCreditDate = Some now,
                           investment.status = InvestmentActive\<rparr>"
    "db' = creditActivationCommission (usr\<lparr>balance := toDouble (balance usr - minAmount plan),
                               activeInvestments := activeInvestments usr @ [iid]\<rparr>) (minAmount plan)
              (db\<lparr>investments := investments db @ [ivt],
                             users := (users db)[uid := usr\<lparr>balance := toDouble (balance usr - minAmount plan),
                               activeInvestments := activeInvestments usr @ [iid]\<rparr>]\<rparr>)"
  using assms
  by (auto simp: activateInvestment_def Let_def split: option.splits if_splits)

lemma creditActivationCommission_investments [simp]:
  "investments (creditActivationCommission usr amt db) = investments db"
  by (simp add: creditActivationCommission_def split: option.splits)

lemma creditActivationCommission_length [simp]:
  "length (users (creditActivationCommission usr amt db)) = length (users db)"
  by (simp add: creditActivationCommission_def split: option.splits)

lemma creditActivationCommission_other:
  assumes "\<forall>code. invitedBy usr = Some code \<longrightarrow> findOneByReferralCode (users db) code \<noteq> Some uid"
  shows "users (creditActivationCommission usr amt db) ! uid = users db ! uid"
  using assms by (auto simp: creditActivationCommission_def split: option.splits)

lemma creditActivationCommission_credit:
  assumes "invitedBy usr = Some code" "code \<noteq> []"
      and "findOneByReferralCode (users db) code = Some rid"
      and "adminConfig db = Some cfg" "isPromotionActive cfg" "0 < commissionOnPlanActivation cfg"
  shows "balance (users (creditActivationCommission usr amt db) ! rid)
           = toDouble (balance (users db ! rid) + toDouble (amt * commissionOnPlanActivation cfg))"
  using assms findOneByReferralCode_less[OF assms(3)]
  by (simp add: creditActivationCommission_def)

lemma activate_amounts:
  assumes run: "activateInvestment now uid (Some pid) db = (Inr (iid, ivt), db')"
      and usr: "findById (users db) uid = Some usr"
      and plan: "plans db pid = Some plan"
      and noself: "\<forall>code. invitedBy usr = Some code \<longrightarrow> findOneByReferralCode (users db) code \<noteq> Some uid"
  shows "balance (users db' ! uid) = toDouble (balance usr - minAmount plan)"
    and "findById (investments db') iid = Some ivt"
    and "investedAmount ivt = minAmount plan"
    and "investment.dailyProfitRate ivt = investmentPlan.dailyProfitRate plan"
    and "endDate ivt = addDays now (durationDays plan)"
    and "\<And>code rid cfg. \<lbrakk>invitedBy usr = Some code; code \<noteq> []; 
            findOneByReferralCode (users db) code = Some rid;
            adminConfig db = Some cfg; isPromotionActive cfg; 0 < commissionOnPlanActivation cfg\<rbrakk>
          \<Longrightarrow> balance (users db' ! rid) = toDouble (balance (users db ! rid) + toDouble (minAmount plan * commissionOnPlanActivation cfg))"
proof -
  from run usr plan obtain usr' db1 where
    usr': "usr' = usr\<lparr>balance := toDouble (balance usr - minAmount plan),
                               activeInvestments := activeInvestments usr @ [iid]\<rparr>"
    and db1: "db1 = db\<lparr>investments := investments db @ [ivt], users := (users db)[uid := usr']\<rparr>"
    and db': "db' = creditActivationCommission usr' (minAmount plan) db1"
    and iid: "iid = length (investments db)"
    and ivt: "ivt = \<lparr>investment.userId = uid, planId = pid, investedAmount = minAmount plan,
                           investment.dailyProfitRate = investmentPlan.dailyProfitRate plan,
                           startDate = now, endDate = addDays now (durationDays plan),
                           currentProfit = 0, lastProfitCreditDate = Some now,
                           investment.status = InvestmentActive\<rparr>"
    by (auto elim!: activate_success)
  from usr have uid: "uid < length (users db)" "users db ! uid = usr"
    by (simp_all add: findById_Some)
  have find: "findOneByReferralCode (users db1) code = findOneByReferralCode (users db) code" for code
    unfolding db1 using uid by (simp add: findOneByReferralCode_update usr')
  have "users db' ! uid = users db1 ! uid"
    unfolding db' by (rule creditActivationCommission_other) (use noself find usr' in simp)
  then show "balance (users db' ! uid) = toDouble (balance usr - minAmount plan)"
    using uid by (simp add: db1 usr')
  show "findById (investments db') iid = Some ivt"
    by (simp add: db' db1 iid findById_def)
  show "investedAmount ivt = minAmount plan" 
    and "investment.dailyProfitRate ivt = investmentPlan.dailyProfitRate plan"
    and "endDate ivt = addDays now (durationDays plan)"
    by (simp_all add: ivt)
  fix code rid cfg
  assume h: "invitedBy usr = Some code" "code \<noteq> []"
            "findOneByReferralCode (users db) code = Some rid"
            "adminConfig db = Some cfg" "isPromotionActive cfg" "0 < commissionOnPlanActivation cfg"
  from h noself have ne: "rid \<noteq> uid" by auto
  have "balance (users db' ! rid) = toDouble (balance (users db1 ! rid) + toDouble (minAmount plan * commissionOnPlanActivation cfg))"
    unfolding db' 
    by (rule creditActivationCommission_credit[where code=code]) (use h find in \<open>simp_all add: usr' db1\<close>)
  then show "balance (users db' ! rid) = toDouble (balance (users db ! rid) + toDouble (minAmount plan * commissionOnPlanActivation cfg))"
    using ne by (simp add: db1)
qed


lemma upgrade_success:
  assumes "upgradeInvestment now uid (Some newPid) db = (Inr ivt', db')"
  obtains usr newPlan iid rest cur currentPlan where
    "findById (users db) uid = Some usr" "plans db newPid = Some newPlan" "isActive newPlan"
    "activeInvestments usr = iid # rest" "findById (investments db) iid = Some cur"
    "plans db (planId cur) = Some currentPlan"
    "investedAmount cur < minAmount newPlan"
    "toDouble (minAmount newPlan - investedAmount cur) \<le> balance usr"
    "ivt' = cur\<lparr>planId := newPid, investedAmount := minAmount newPlan,
                investment.dailyProfitRate := investmentPlan.dailyProfitRate newPlan,
                endDate := addDays now (durationDays newPlan),
                lastProfitCreditDate := Some now\<rparr>"
    "db' = creditActivationCommission (usr\<lparr>balance := toDouble (balance usr - toDouble (minAmount newPlan - investedAmount cur))\<rparr>)
              (toDouble (minAmount newPlan - investedAmount cur))
              (db\<lparr>investments := (investments db)[iid := ivt'],
                  users := (users db)[uid := usr\<lparr>balance := toDouble (balance usr - toDouble (minAmount newPlan - investedAmount cur))\<rparr>]\<rparr>)"
  using assms
  by (auto simp: upgradeInvestment_def Let_def split: option.splits if_splits list.splits)

lemma upgrade_amounts:
  assumes run: "upgradeInvestment now uid (Some newPid) db = (Inr ivt', db')"
      and usr: "findById (users db) uid = Some usr"
      and plan: "plans db newPid = Some newPlan"
      and cur: "findById (investments db) (hd (activeInvestments usr)) = Some cur"
      and noself: "\<forall>code. invitedBy usr = Some code \<longrightarrow> findOneByReferralCode (users db) code \<noteq> Some uid"
  shows "balance (users db' ! uid) = toDouble (balance usr - toDouble (minAmount newPlan - investedAmount cur))"
    and "\<And>code rid cfg. \<lbrakk>invitedBy usr = Some code; code \<noteq> []; 
            findOneByReferralCode (users db) code = Some rid;
            adminConfig db = Some cfg; isPromotionActive cfg; 0 < commissionOnPlanActivation cfg\<rbrakk>
          \<Longrightarrow> balance (users db' ! rid)
                = toDouble (balance (users db ! rid) + toDouble (toDouble (minAmount newPlan - investedAmount cur) * commissionOnPlanActivation cfg))"
proof -
  define diff where "diff = toDouble (minAmount newPlan - investedAmount cur)"
  from run usr plan cur obtain usr' db1 iid where
    usr': "usr' = usr\<lparr>balance := toDouble (balance usr - diff)\<rparr>"
    and db1: "db1 = db\<lparr>investments := (investments db)[iid := ivt'], users := (users db)[uid := usr']\<rparr>"
    and db': "db' = creditActivationCommission usr' diff db1"
    unfolding diff_def by (auto elim!: upgrade_success)
  from usr have uid: "uid < length (users db)" "users db ! uid = usr"
    by (simp_all add: findById_Some)
  have find: "findOneByReferralCode (users db1) code = findOneByReferralCode (users db) code" for code
    unfolding db1 using uid by (simp add: findOneByReferralCode_update usr')
  have "users db' ! uid = users db1 ! uid"
    unfolding db' by (rule creditActivationCommission_other) (use noself find usr' in simp)
  then show "balance (users db' ! uid) = toDouble (balance usr - toDouble (minAmount newPlan - investedAmount cur))"
    using uid by (simp add: db1 usr' diff_def)
  fix code rid cfg
  assume h: "invitedBy usr = Some code" "code \<noteq> []"
            "findOneByReferralCode (users db) code = Some rid"
            "adminConfig db = Some cfg" "isPromotionActive cfg" "0 < commissionOnPlanActivation cfg"
  from h noself have ne: "rid \<noteq> uid" by auto
  have "balance (users db' ! rid) = toDouble (balance (users db1 ! rid) + toDouble (diff * commissionOnPlanActivation cfg))"
    unfolding db' 
    by (rule creditActivationCommission_credit[where code=code]) (use h find in \<open>simp_all add: usr' db1\<close>)
  then show "balance (users db' ! rid)
                = toDouble (balance (users db ! rid) + toDouble (toDouble (minAmount newPlan - investedAmount cur) * commissionOnPlanActivation cfg))"
    using ne by (simp add: db1 diff_def)
qed

text \<open>
  Claim C6. An upgrade to a plan whose price is not above the amount already invested is
  refused with \<open>PriceNotHigher\<close> and writes nothing: the store it leaves is the store it found.
  The call is one that reaches the price check: the user and the active new plan are found,
  the user's first active investment exists and its current plan is still in the store.
\<close>

theorem upgrade_price_not_higher:
  assumes "findById (users db) uid = Some usr"
      and "plans db newPid = Some newPlan" and "isActive newPlan"
      and "activeInvestments usr = iid # rest"
      and "findById (investments db) iid = Some cur"
      and "plans db (planId cur) = Some currentPlan"
      and "minAmount newPlan \<le> investedAmount cur"
  shows "upgradeInvestment now uid (Some newPid) db = (Inl PriceNotHigher, db)"
  using assms by (simp add: upgradeInvestment_def)

theorem upgrade_price_not_higher_witness:
  "findById (users ledgerInvested) 0 = Some (users ledgerInvested ! 0)
   \<and> activeInvestments (users ledgerInvested ! 0) = [0]
   \<and> investedAmount (investments ledgerInvested ! 0) = 500
   \<and> minAmount planBasic \<le> 500
   \<and> upgradeInvestment 5 0 (Some 0) ledgerInvested = (Inl PriceNotHigher, ledgerInvested)"
proof -
  have 1: "findById (users ledgerInvested) 0 = Some (users ledgerInvested ! 0)"
    and 2: "plans ledgerInvested 0 = Some planBasic" and 3: "isActive planBasic"
    and 4: "activeInvestments (users ledgerInvested ! 0) = 0 # []"
    and 5: "findById (investments ledgerInvested) 0 = Some (investments ledgerInvested ! 0)"
    and 6: "plans ledgerInvested (planId (investments ledgerInvested ! 0)) = Some planBasic"
    and 7: "minAmount planBasic \<le> investedAmount (investments ledgerInvested ! 0)"
    and 8: "investedAmount (investments ledgerInvested ! 0) = 500"
    by (simp_all add: lifecycle_defs example_defs)
  from upgrade_price_not_higher[OF 1 2 3 4 5 6 7, of 5] 1 4 7 8 show ?thesis by simp
qed

text \<open>
  Claim C4 as stated (the referrer gains exactly price times rate) fails on the code: with
  the rate \<^verbatim>\<open>0.07\<close> and a plan of 300 the eligible referrer R, who had 0, holds
  21.000000000000004 after A's activation, which is not 300 times the stored rate.
\<close>

theorem commission_differs_from_exact_product:
  "commissionOnPlanActivation (the (adminConfig ledgerRounding))
      = 1261007895663739 / 18014398509481984
   \<and> minAmount (the (plans ledgerRounding 0)) = 300
   \<and> user.status (users ledgerRounding ! 1) = Active
   \<and> balance (users ledgerRounding ! 1) = 0
   \<and> \<not> isl (fst (activateInvestment 0 0 (Some 0) ledgerRounding))
   \<and> balance (users (snd (activateInvestment 0 0 (Some 0) ledgerRounding)) ! 1)
       = 5910974510923777 / 281474976710656
   \<and> balance (users (snd (activateInvestment 0 0 (Some 0) ledgerRounding)) ! 1)
       \<noteq> balance (users ledgerRounding ! 1)
          + minAmount (the (plans ledgerRounding 0))
            * commissionOnPlanActivation (the (adminConfig ledgerRounding))"
  by code_simp

text \<open>
  Claim C4, amended. Amounts are doubles and every operation rounds to the nearest double.
  A successful activation leaves the user with the double nearest to balance minus price,
  stores an investment whose amount is the price, whose daily rate is the plan's and whose
  end date is \<open>now\<close> plus the plan's duration in days of 86400000 ms, and sets the balance
  of an eligible referrer (found by the user's invite code, active, promotion on, positive
  rate) to the double nearest to its old balance plus the double nearest to price times
  rate. A successful upgrade charges the double nearest to the price difference in the same
  way and pays the referrer on that difference. Where the exact results are doubles (as with
  whole amounts and a commission that comes out whole) these are the exact values of the
  claim. The user is not the account their own invite code points to, which holds of every
  account when it is registered (\<open>register_no_self_referral\<close>).
\<close>

theorem activate_upgrade_amounts:
  "(activateInvestment now uid (Some pid) db = (Inr (iid, ivt), db')
      \<and> findById (users db) uid = Some usr \<and> plans db pid = Some plan
      \<and> (\<forall>code. invitedBy usr = Some code \<longrightarrow> findOneByReferralCode (users db) code \<noteq> Some uid)
    \<longrightarrow> balance (users db' ! uid) = toDouble (balance usr - minAmount plan)
        \<and> (toDouble (balance usr - minAmount plan) = balance usr - minAmount plan
             \<longrightarrow> balance (users db' ! uid) = balance usr - minAmount plan)
        \<and> findById (investments db') iid = Some ivt
        \<and> investedAmount ivt = minAmount plan
        \<and> investment.dailyProfitRate ivt = investmentPlan.dailyProfitRate plan
        \<and> endDate ivt = now + durationDays plan * 86400000
        \<and> (\<forall>code rid cfg.
              invitedBy usr = Some code \<and> code \<noteq> []
              \<and> findOneByReferralCode (users db) code = Some rid
              \<and> user.status (users db ! rid) = Active
              \<and> adminConfig db = Some cfg \<and> isPromotionActive cfg
              \<and> 0 < commissionOnPlanActivation cfg
            \<longrightarrow> balance (users db' ! rid)
                  = toDouble (balance (users db ! rid)
                              + toDouble (minAmount plan * commissionOnPlanActivation cfg))
                \<and> (toDouble (minAmount plan * commissionOnPlanActivation cfg)
                       = minAmount plan * commissionOnPlanActivation cfg
                     \<and> toDouble (balance (users db ! rid)
                                  + minAmount plan * commissionOnPlanActivation cfg)
                       = balance (users db ! rid) + minAmount plan * commissionOnPlanActivation cfg
                    \<longrightarrow> balance (users db' ! rid)
                          = balance (users db ! rid)
                            + minAmount plan * commissionOnPlanActivation cfg)))
   \<and> (upgradeInvestment now uid (Some pid) db = (Inr ivt', db'')
      \<and> findById (users db) uid = Some usr \<and> plans db pid = Some plan
      \<and> findById (investments db) (hd (activeInvestments usr)) = Some cur
      \<and> (\<forall>code. invitedBy usr = Some code \<longrightarrow> findOneByReferralCode (users db) code \<noteq> Some uid)
    \<longrightarrow> balance (users db'' ! uid)
          = toDouble (balance usr - toDouble (minAmount plan - investedAmount cur))
        \<and> (\<forall>code rid cfg.
              invitedBy usr = Some code \<and> code \<noteq> []
              \<and> findOneByReferralCode (users db) code = Some rid
              \<and> user.status (users db ! rid) = Active
              \<and> adminConfig db = Some cfg \<and> isPromotionActive cfg
              \<and> 0 < commissionOnPlanActivation cfg
            \<longrightarrow> balance (users db'' ! rid)
                  = toDouble (balance (users db ! rid)
                              + toDouble (toDouble (minAmount plan - investedAmount cur)
                                          * commissionOnPlanActivation cfg))))"
proof (intro conjI impI allI; (elim conjE)?)
  assume run: "activateInvestment now uid (Some pid) db = (Inr (iid, ivt), db')"
     and usr: "findById (users db) uid = Some usr" and plan: "plans db pid = Some plan"
     and noself: "\<forall>code. invitedBy usr = Some code \<longrightarrow> findOneByReferralCode (users db) code \<noteq> Some uid"
  note a = activate_amounts[OF run usr plan noself]
  show "balance (users db' ! uid) = toDouble (balance usr - minAmount plan)" by (rule a)
  show "balance (users db' ! uid) = balance usr - minAmount plan"
    if "toDouble (balance usr - minAmount plan) = balance usr - minAmount plan"
    using a(1) that by simp
  show "findById (investments db') iid = Some ivt" by (rule a)
  show "investedAmount ivt = minAmount plan" by (rule a)
  show "investment.dailyProfitRate ivt = investmentPlan.dailyProfitRate plan" by (rule a)
  show "endDate ivt = now + durationDays plan * 86400000" using a(5) by (simp add: addDays_def)
  fix code rid cfg
  assume h: "invitedBy usr = Some code" "code \<noteq> []" "findOneByReferralCode (users db) code = Some rid"
         "adminConfig db = Some cfg" "isPromotionActive cfg" "0 < commissionOnPlanActivation cfg"
  from h show paid: "balance (users db' ! rid)
                  = toDouble (balance (users db ! rid)
                              + toDouble (minAmount plan * commissionOnPlanActivation cfg))"
    by (rule a(6))
  show "balance (users db' ! rid)
          = balance (users db ! rid) + minAmount plan * commissionOnPlanActivation cfg"
    if "toDouble (minAmount plan * commissionOnPlanActivation cfg)
          = minAmount plan * commissionOnPlanActivation cfg"
       "toDouble (balance (users db ! rid) + minAmount plan * commissionOnPlanActivation cfg)
          = balance (users db ! rid) + minAmount plan * commissionOnPlanActivation cfg"
    using paid that by simp
next
  assume run: "upgradeInvestment now uid (Some pid) db = (Inr ivt', db'')"
     and usr: "findById (users db) uid = Some usr" and plan: "plans db pid = Some plan"
     and cur: "findById (investments db) (hd (activeInvestments usr)) = Some cur"
     and noself: "\<forall>code. invitedBy usr = Some code \<longrightarrow> findOneByReferralCode (users db) code \<noteq> Some uid"
  note u = upgrade_amounts[OF run usr plan cur noself]
  show "balance (users db'' ! uid)
          = toDouble (balance usr - toDouble (minAmount plan - investedAmount cur))"
    by (rule u)
  fix code rid cfg
  assume "invitedBy usr = Some code" "code \<noteq> []" "findOneByReferralCode (users db) code = Some rid"
         "adminConfig db = Some cfg" "isPromotionActive cfg" "0 < commissionOnPlanActivation cfg"
  then show "balance (users db'' ! rid)
                  = toDouble (balance (users db ! rid)
                              + toDouble (toDouble (minAmount plan - investedAmount cur)
                                          * commissionOnPlanActivation cfg))"
    by (rule u(2))
qed

lemma activate_examples:
  "activateInvestment 1000 0 (Some 0) ledgerAR
     = (Inr (0, investmentA\<lparr>startDate := 1000, endDate := 5184001000,
                            lastProfitCreditDate := Some 1000\<rparr>),
        ledgerAR\<lparr>users := [userA\<lparr>balance := 500, activeInvestments := [0]\<rparr>,
                           userR\<lparr>balance := 125\<rparr>],
                 investments := [investmentA\<lparr>startDate := 1000, endDate := 5184001000,
                                             lastProfitCreditDate := Some 1000\<rparr>]\<rparr>)"
  "\<not> isl (fst (upgradeInvestment 5 0 (Some 1) ledgerInvested))"
  "balance (users (snd (upgradeInvestment 5 0 (Some 1) ledgerInvested)) ! 0) = 1000"
  "balance (users (snd (upgradeInvestment 5 0 (Some 1) ledgerInvested)) ! 1) = 125"
  by (simp_all add: lifecycle_defs example_defs double_facts)

lemma activate_rounding_examples:
  "balance (users (snd (activateInvestment 0 0 (Some 0) ledgerRounding)) ! 0) = 700"
  "balance (users (snd (activateInvestment 0 0 (Some 0) ledgerRounding)) ! 1)
     = 5910974510923777 / 281474976710656"
  by code_simp+

theorem activate_upgrade_amounts_witness:
  "findById (users ledgerAR) 0 = Some userA \<and> plans ledgerAR 0 = Some planBasic
   \<and> findOneByReferralCode (users ledgerAR) ''RRRRRRR1'' = Some 1
   \<and> balance userA = 1000 \<and> minAmount planBasic = 500 \<and> durationDays planBasic = 60
   \<and> balance (users ledgerAR ! 1) = 100
   \<and> balance (users (snd (activateInvestment 1000 0 (Some 0) ledgerAR)) ! 0) = 500
   \<and> endDate (snd (projr (fst (activateInvestment 1000 0 (Some 0) ledgerAR)))) = 5184001000
   \<and> balance (users (snd (activateInvestment 1000 0 (Some 0) ledgerAR)) ! 1) = 125
   \<and> balance (users (snd (activateInvestment 0 0 (Some 0) ledgerRounding)) ! 1)
       = 5910974510923777 / 281474976710656
   \<and> balance (users ledgerInvested ! 0) = 1500 \<and> balance (users ledgerInvested ! 1) = 100
   \<and> balance (users (snd (upgradeInvestment 5 0 (Some 1) ledgerInvested)) ! 0) = 1000
   \<and> balance (users (snd (upgradeInvestment 5 0 (Some 1) ledgerInvested)) ! 1) = 125"
proof -
  have base: "findById (users ledgerAR) 0 = Some userA" "plans ledgerAR 0 = Some planBasic"
      "findOneByReferralCode (users ledgerAR) ''RRRRRRR1'' = Some 1"
      "balance userA = 1000" "minAmount planBasic = 500" "durationDays planBasic = 60"
      "balance (users ledgerAR ! 1) = 100"
      "balance (users ledgerInvested ! 0) = 1500" "balance (users ledgerInvested ! 1) = 100"
    by (simp_all add: lifecycle_defs example_defs)
  have self: "\<forall>code. invitedBy userA = Some code
                \<longrightarrow> findOneByReferralCode (users ledgerAR) code \<noteq> Some 0"
    by (simp add: lifecycle_defs example_defs)
  note A = activate_upgrade_amounts[THEN conjunct1, rule_format,
             OF conjI[OF activate_examples(1) conjI[OF base(1) conjI[OF base(2) self]]]]
  from A have "balance (users (snd (activateInvestment 1000 0 (Some 0) ledgerAR)) ! 0)
                 = toDouble (balance userA - minAmount planBasic)"
    and "endDate (snd (projr (fst (activateInvestment 1000 0 (Some 0) ledgerAR))))
                 = 1000 + durationDays planBasic * 86400000"
    by (simp_all add: activate_examples(1))
  then show ?thesis
    using base activate_examples activate_rounding_examples by (simp add: double_facts)
qed

text \<open>
  Claim C1, evaluated on the code. With the referrer R blocked, A's activation still
  succeeds and R's balance goes from 100 to 125: the activation commission (and, by the same
  block, the upgrade commission) is paid without reading the referrer's status, where the
  daily batch pays only a referrer whose status is active.
\<close>

theorem activate_credits_blocked_referrer:
  "user.status (users ledgerBlockedR ! 1) = Blocked
   \<and> balance (users ledgerBlockedR ! 1) = 100
   \<and> \<not> isl (fst (activateInvestment 0 0 (Some 0) ledgerBlockedR))
   \<and> user.status (users (snd (activateInvestment 0 0 (Some 0) ledgerBlockedR)) ! 1) = Blocked
   \<and> balance (users (snd (activateInvestment 0 0 (Some 0) ledgerBlockedR)) ! 1) = 125"
  by (simp add: lifecycle_defs example_defs double_facts)

subsection \<open>The withdrawal window\<close>

lemma isDigit_not_colon: "isDigit c \<Longrightarrow> c \<noteq> CHR '':''"
  by (auto simp: isDigit_def)

lemma digitValue_nonneg: "isDigit c \<Longrightarrow> 0 \<le> digitValue c"
  by (simp add: isDigit_def digitValue_def)

lemma parseTime_valid:
  assumes "validTimeString s"
  shows "parseTime s = clockMinutes s" and "0 \<le> clockMinutes s"
proof -
  from assms obtain h1 h2 m1 m2 where s: "s = [h1, h2, CHR '':'', m1, m2]"
    and d: "isDigit h1" "isDigit h2" "isDigit m1" "isDigit m2"
    by (auto simp: validTimeString_def split: list.splits)
  from d have ne: "h1 \<noteq> CHR '':''" "h2 \<noteq> CHR '':''" "m1 \<noteq> CHR '':''" "m2 \<noteq> CHR '':''"
    by (auto dest: isDigit_not_colon)
  have split: "splitOn CHR '':'' s = [[h1, h2], [m1, m2]]"
    using ne by (simp add: s)
  show "parseTime s = clockMinutes s"
    using d ne by (simp add: parseTime_def jsNumber_def clockMinutes_def s)
  show "0 \<le> clockMinutes s"
    using d[THEN digitValue_nonneg] by (simp add: clockMinutes_def s)
qed

lemma time_allowed_valid:
  assumes "validTimeString startTime" "validTimeString endTime"
  shows "isWithdrawalTimeAllowed now startTime endTime
          \<longleftrightarrow> clockMinutes startTime \<le> currentTimeInMinutes now
              \<and> currentTimeInMinutes now \<le> clockMinutes endTime"
  using parseTime_valid[OF assms(1)] parseTime_valid[OF assms(2)]
  by (simp add: isWithdrawalTimeAllowed_def Let_def)

lemma validTimeString_nonempty: "validTimeString s \<Longrightarrow> s \<noteq> []"
  by (auto simp: validTimeString_def)

lemma eval_1800: "currentTimeInMinutes 64800000 = 1080" 
  by (simp add: currentTimeInMinutes_def)
lemma eval_parse: "parseTime ''18:00'' = 1080" "parseTime ''08:00'' = 480"
  by (simp_all add: parseTime_def jsNumber_def isDigit_def digitValue_def)

text \<open>
  Claim C9 as stated (a half-open window, a request at exactly the end time refused) fails
  on the code: at 18:00 with the window 08:00 to 18:00 the time check answers true and the
  request is admitted.
\<close>

theorem request_at_end_time_admitted:
  "currentTimeInMinutes 64800000 = parseTime ''18:00''
   \<and> isWithdrawalTimeAllowed 64800000 ''08:00'' ''18:00''
   \<and> withdrawalEndTime configDefault = ''18:00'' \<and> adminConfig ledgerAR = Some configDefault
   \<and> \<not> isl (fst (requestWithdrawal 64800000 0 200 ''M-Pesa 840000001'' ledgerAR))"
  by (simp add: eval_1800 eval_parse isWithdrawalTimeAllowed_def requestWithdrawal_def findById_def
        jsTrim_def isSpace_def Let_def example_defs)

text \<open>
  Claim C9, amended. The window is closed at both ends, as the comment on the comparison
  says (\<^verbatim>\<open>[startTime, endTime]\<close>): for configured times in the format \<^verbatim>\<open>HH:MM\<close> the time check
  admits exactly when start \<open>\<le>\<close> t \<open>\<le>\<close> end in local clock minutes, and a well-formed request
  of an existing user is refused for the time exactly when t lies outside that closed
  interval.
\<close>

theorem withdrawal_window_closed:
  assumes "adminConfig db = Some cfg"
      and "validTimeString (withdrawalStartTime cfg)" and "validTimeString (withdrawalEndTime cfg)"
      and "0 < amt" and "wallet \<noteq> []" and "findById (users db) uid = Some usr"
  shows "(isWithdrawalTimeAllowed now (withdrawalStartTime cfg) (withdrawalEndTime cfg)
           \<longleftrightarrow> clockMinutes (withdrawalStartTime cfg) \<le> currentTimeInMinutes now
               \<and> currentTimeInMinutes now \<le> clockMinutes (withdrawalEndTime cfg))
       \<and> (fst (requestWithdrawal now uid amt wallet db) = Inl OutsideWithdrawalWindow
           \<longleftrightarrow> \<not> (clockMinutes (withdrawalStartTime cfg) \<le> currentTimeInMinutes now
                  \<and> currentTimeInMinutes now \<le> clockMinutes (withdrawalEndTime cfg)))"
proof
  show w: "isWithdrawalTimeAllowed now (withdrawalStartTime cfg) (withdrawalEndTime cfg)
           \<longleftrightarrow> clockMinutes (withdrawalStartTime cfg) \<le> currentTimeInMinutes now
               \<and> currentTimeInMinutes now \<le> clockMinutes (withdrawalEndTime cfg)"
    by (rule time_allowed_valid) fact+
  show "fst (requestWithdrawal now uid amt wallet db) = Inl OutsideWithdrawalWindow
           \<longleftrightarrow> \<not> (clockMinutes (withdrawalStartTime cfg) \<le> currentTimeInMinutes now
                  \<and> currentTimeInMinutes now \<le> clockMinutes (withdrawalEndTime cfg))"
    unfolding w[symmetric]
    using assms validTimeString_nonempty[OF assms(2)] validTimeString_nonempty[OF assms(3)]
    by (simp add: requestWithdrawal_def Let_def)
qed

theorem withdrawal_window_closed_witness:
  "validTimeString ''08:00'' \<and> validTimeString ''18:00''
   \<and> clockMinutes ''08:00'' = 480 \<and> clockMinutes ''18:00'' = 1080
   \<and> currentTimeInMinutes 64860000 = 1081
   \<and> fst (requestWithdrawal 64860000 0 200 ''M-Pesa 840000001'' ledgerAR) = Inl OutsideWithdrawalWindow
   \<and> fst (requestWithdrawal 64800000 0 200 ''M-Pesa 840000001'' ledgerAR) \<noteq> Inl OutsideWithdrawalWindow"
proof -
  have v: "validTimeString (withdrawalStartTime configDefault)" "validTimeString (withdrawalEndTime configDefault)"
    by (simp_all add: validTimeString_def isDigit_def configDefault_def)
  have c: "adminConfig ledgerAR = Some configDefault" by (simp add: ledgerAR_def)
  have u: "findById (users ledgerAR) 0 = Some userA" by (simp add: ledgerAR_def findById_def)
  have m: "clockMinutes ''08:00'' = 480" "clockMinutes ''18:00'' = 1080"
    by (simp_all add: clockMinutes_def digitValue_def)
  have t: "currentTimeInMinutes 64860000 = 1081" by (simp add: currentTimeInMinutes_def)
  have a: "(0::rat) < 200" "''M-Pesa 840000001'' \<noteq> []" by simp_all
  from withdrawal_window_closed[OF c v a u, of 64860000]
       withdrawal_window_closed[OF c v a u, of 64800000] v m t eval_1800
  show ?thesis by (simp add: configDefault_def)
qed

subsection \<open>The withdrawal lifecycle\<close>

lemma request_success:
  assumes "requestWithdrawal now uid amt wallet db = (Inr (wid, w), db1)"
  obtains usr where "findById (users db) uid = Some usr" "amt \<le> balance usr" "1 \<le> amt"
    "jsTrim wallet \<noteq> []" "wid = length (withdrawals db)"
    "w = \<lparr>withdrawal.userId = uid, amount = amt, walletAddress = jsTrim wallet,
          withdrawal.status = Pending, approvalDate = None, adminId = None\<rparr>"
    "db1 = db\<lparr>withdrawals := withdrawals db @ [w],
              users := (users db)[uid := usr\<lparr>balance := toDouble (balance usr - amt),
                               withdrawalHistory := withdrawalHistory usr @ [wid]\<rparr>]\<rparr>"
  using assms
  by (auto simp: requestWithdrawal_def Let_def split: option.splits if_splits)

lemma reject_pending:
  assumes "findById (withdrawals d) k = Some w0" "withdrawal.status w0 = Pending"
  shows "fst (rejectWithdrawal t a k d)
           = Inr (w0\<lparr>withdrawal.status := Rejected, approvalDate := Some t, adminId := Some a\<rparr>)"
    and "withdrawals (snd (rejectWithdrawal t a k d))
           = (withdrawals d)[k := w0\<lparr>withdrawal.status := Rejected, approvalDate := Some t,
                                    adminId := Some a\<rparr>]"
    and "users (snd (rejectWithdrawal t a k d))
           = (case findById (users d) (withdrawal.userId w0) of
                None \<Rightarrow> users d
              | Some u \<Rightarrow> (users d)[withdrawal.userId w0 :=
                             u\<lparr>balance := toDouble (balance u + amount w0)\<rparr>])"
  using assms by (simp_all add: rejectWithdrawal_def Let_def split: option.splits)

lemma approve_pending:
  assumes "findById (withdrawals d) k = Some w0" "withdrawal.status w0 = Pending"
  shows "approveWithdrawal t a k d
           = (Inr (w0\<lparr>withdrawal.status := Approved, approvalDate := Some t, adminId := Some a\<rparr>),
              d\<lparr>withdrawals := (withdrawals d)[k := w0\<lparr>withdrawal.status := Approved,
                                    approvalDate := Some t, adminId := Some a\<rparr>]\<rparr>)"
  using assms by (simp add: approveWithdrawal_def Let_def)

lemma not_pending_refused:
  assumes "findById (withdrawals d) k = Some w0" "withdrawal.status w0 \<noteq> Pending"
  shows "approveWithdrawal t a k d = (Inl NotPending, d)"
    and "rejectWithdrawal t a k d = (Inl NotPending, d)"
  using assms by (simp_all add: approveWithdrawal_def rejectWithdrawal_def)

lemma decided_stays_decided:
  assumes "findById (withdrawals d) k = Some w0" "withdrawal.status w0 = Pending"
  shows "approveWithdrawal t' a' k (snd (approveWithdrawal t a k d))
           = (Inl NotPending, snd (approveWithdrawal t a k d))"
    and "rejectWithdrawal t' a' k (snd (approveWithdrawal t a k d))
           = (Inl NotPending, snd (approveWithdrawal t a k d))"
    and "approveWithdrawal t' a' k (snd (rejectWithdrawal t a k d))
           = (Inl NotPending, snd (rejectWithdrawal t a k d))"
    and "rejectWithdrawal t' a' k (snd (rejectWithdrawal t a k d))
           = (Inl NotPending, snd (rejectWithdrawal t a k d))"
proof -
  from assms(1) have k: "k < length (withdrawals d)" by (simp add: findById_Some)
  let ?wa = "w0\<lparr>withdrawal.status := Approved, approvalDate := Some t, adminId := Some a\<rparr>"
  let ?wr = "w0\<lparr>withdrawal.status := Rejected, approvalDate := Some t, adminId := Some a\<rparr>"
  have a: "findById (withdrawals (snd (approveWithdrawal t a k d))) k = Some ?wa"
    using k by (simp add: approve_pending[OF assms] findById_def)
  have r: "findById (withdrawals (snd (rejectWithdrawal t a k d))) k = Some ?wr"
    using k by (simp add: reject_pending(2)[OF assms] findById_def)
  show "approveWithdrawal t' a' k (snd (approveWithdrawal t a k d))
           = (Inl NotPending, snd (approveWithdrawal t a k d))"
    by (rule not_pending_refused(1)[OF a]) simp
  show "rejectWithdrawal t' a' k (snd (approveWithdrawal t a k d))
           = (Inl NotPending, snd (approveWithdrawal t a k d))"
    by (rule not_pending_refused(2)[OF a]) simp
  show "approveWithdrawal t' a' k (snd (rejectWithdrawal t a k d))
           = (Inl NotPending, snd (rejectWithdrawal t a k d))"
    by (rule not_pending_refused(1)[OF r]) simp
  show "rejectWithdrawal t' a' k (snd (rejectWithdrawal t a k d))
           = (Inl NotPending, snd (rejectWithdrawal t a k d))"
    by (rule not_pending_refused(2)[OF r]) simp
qed

lemma request_eval:
  "requestWithdrawal 36000000 0 200 ''M-Pesa 840000001'' ledgerAR
     = (Inr (0, \<lparr>withdrawal.userId = 0, amount = 200, walletAddress = ''M-Pesa 840000001'',
          withdrawal.status = Pending, approvalDate = None, adminId = None\<rparr>),
        ledgerAR\<lparr>withdrawals := [\<lparr>withdrawal.userId = 0, amount = 200, walletAddress = ''M-Pesa 840000001'',
          withdrawal.status = Pending, approvalDate = None, adminId = None\<rparr>],
          users := [userA\<lparr>balance := 800, withdrawalHistory := [0]\<rparr>, userR]\<rparr>)"
  by (simp add: requestWithdrawal_def isWithdrawalTimeAllowed_def parseTime_def jsNumber_def isDigit_def digitValue_def
       currentTimeInMinutes_def findById_def jsTrim_def isSpace_def Let_def example_defs double_facts)

lemma request_fractional_examples:
  "balance (users ledgerFractional ! 0) = 7656119366529843 / 2251799813685248"
  "\<not> isl (fst (requestWithdrawal 36000000 0 (5404319552844595 / 4503599627370496)
                   ''M-Pesa 840000001'' ledgerFractional))"
  "balance (users (snd (requestWithdrawal 36000000 0 (5404319552844595 / 4503599627370496)
                          ''M-Pesa 840000001'' ledgerFractional)) ! 0)
     = 2476979795053773 / 1125899906842624"
  "\<not> isl (fst (rejectWithdrawal 36000001 1 0
                   (snd (requestWithdrawal 36000000 0 (5404319552844595 / 4503599627370496)
                           ''M-Pesa 840000001'' ledgerFractional))))"
  "balance (users (snd (rejectWithdrawal 36000001 1 0
                          (snd (requestWithdrawal 36000000 0 (5404319552844595 / 4503599627370496)
                                  ''M-Pesa 840000001'' ledgerFractional)))) ! 0)
     = 1914029841632461 / 562949953421312"
  "fst (requestWithdrawal 36000000 0 200 ''   '' ledgerAR) = Inl ServerError"
  by code_simp+

lemma request_refused_writes_nothing:
  "isl (fst (requestWithdrawal now uid amt wallet db)) \<Longrightarrow>
     snd (requestWithdrawal now uid amt wallet db) = db"
  by (auto simp: requestWithdrawal_def Let_def split: option.splits if_splits)

lemma request_blank_wallet:
  "jsTrim wallet = [] \<Longrightarrow> isl (fst (requestWithdrawal now uid amt wallet db))"
  by (auto simp: requestWithdrawal_def Let_def split: option.splits)

text \<open>
  Claim C7 as stated (a rejection restores the balance before the request) fails on the
  code: with a balance of \<^verbatim>\<open>3.4\<close> and a request for \<^verbatim>\<open>1.2\<close> the request leaves 2.2 and the
  rejection leaves 3.4000000000000004.
\<close>

theorem rejection_misses_pre_request_balance:
  "balance (users ledgerFractional ! 0) = 7656119366529843 / 2251799813685248
   \<and> \<not> isl (fst (requestWithdrawal 36000000 0 (5404319552844595 / 4503599627370496)
                     ''M-Pesa 840000001'' ledgerFractional))
   \<and> \<not> isl (fst (rejectWithdrawal 36000001 1 0
                     (snd (requestWithdrawal 36000000 0 (5404319552844595 / 4503599627370496)
                             ''M-Pesa 840000001'' ledgerFractional))))
   \<and> balance (users (snd (rejectWithdrawal 36000001 1 0
                          (snd (requestWithdrawal 36000000 0 (5404319552844595 / 4503599627370496)
                                  ''M-Pesa 840000001'' ledgerFractional)))) ! 0)
       = 1914029841632461 / 562949953421312
   \<and> balance (users (snd (rejectWithdrawal 36000001 1 0
                          (snd (requestWithdrawal 36000000 0 (5404319552844595 / 4503599627370496)
                                  ''M-Pesa 840000001'' ledgerFractional)))) ! 0)
       \<noteq> balance (users ledgerFractional ! 0)"
  by code_simp

text \<open>
  Claim C7, amended. Amounts are doubles. An admitted withdrawal request for \<open>amt\<close> sets the
  user's balance at once to the double nearest to balance minus \<open>amt\<close> and stores a pending
  withdrawal; a request with a wallet of blanks only is never admitted and a refused
  request writes nothing. Rejecting the withdrawal sets the balance to the double nearest to
  the debited balance plus \<open>amt\<close>, which is the balance before the request whenever that
  balance and its difference with \<open>amt\<close> are doubles (as with whole amounts); approving it
  leaves every user as the request left them. After either decision a further approval or
  rejection is refused with \<open>NotPending\<close> and writes nothing. In any later store, rejecting a
  pending withdrawal of an existing user sets that user's balance to the double nearest to
  balance plus amount, approving it changes no user, and a withdrawal that is not pending
  can be neither approved nor rejected.
\<close>

theorem withdrawal_lifecycle:
  assumes req: "requestWithdrawal now uid amt wallet db = (Inr (wid, w), db1)"
  shows "balance (users db1 ! uid) = toDouble (balance (users db ! uid) - amt)
       \<and> findById (withdrawals db1) wid = Some w \<and> withdrawal.status w = Pending
       \<and> amount w = amt \<and> withdrawal.userId w = uid
       \<and> \<not> isl (fst (rejectWithdrawal t a wid db1))
       \<and> balance (users (snd (rejectWithdrawal t a wid db1)) ! uid)
           = toDouble (toDouble (balance (users db ! uid) - amt) + amt)
       \<and> (toDouble (balance (users db ! uid)) = balance (users db ! uid)
            \<and> toDouble (balance (users db ! uid) - amt) = balance (users db ! uid) - amt
           \<longrightarrow> balance (users (snd (rejectWithdrawal t a wid db1)) ! uid) = balance (users db ! uid))
       \<and> \<not> isl (fst (approveWithdrawal t a wid db1))
       \<and> users (snd (approveWithdrawal t a wid db1)) = users db1
       \<and> approveWithdrawal t' a' wid (snd (approveWithdrawal t a wid db1))
           = (Inl NotPending, snd (approveWithdrawal t a wid db1))
       \<and> rejectWithdrawal t' a' wid (snd (approveWithdrawal t a wid db1))
           = (Inl NotPending, snd (approveWithdrawal t a wid db1))
       \<and> approveWithdrawal t' a' wid (snd (rejectWithdrawal t a wid db1))
           = (Inl NotPending, snd (rejectWithdrawal t a wid db1))
       \<and> rejectWithdrawal t' a' wid (snd (rejectWithdrawal t a wid db1))
           = (Inl NotPending, snd (rejectWithdrawal t a wid db1))
       \<and> (\<forall>d k w0 u0.
             findById (withdrawals d) k = Some w0 \<and> withdrawal.status w0 = Pending
             \<and> findById (users d) (withdrawal.userId w0) = Some u0
             \<longrightarrow> balance (users (snd (rejectWithdrawal t a k d)) ! withdrawal.userId w0)
                   = toDouble (balance u0 + amount w0)
                 \<and> users (snd (approveWithdrawal t a k d)) = users d)
       \<and> (\<forall>d k w0.
             findById (withdrawals d) k = Some w0 \<and> withdrawal.status w0 \<noteq> Pending
             \<longrightarrow> approveWithdrawal t a k d = (Inl NotPending, d)
                 \<and> rejectWithdrawal t a k d = (Inl NotPending, d))
       \<and> (\<forall>d u x wl.
             (jsTrim wl = [] \<longrightarrow> isl (fst (requestWithdrawal t u x wl d)))
             \<and> (isl (fst (requestWithdrawal t u x wl d))
                  \<longrightarrow> snd (requestWithdrawal t u x wl d) = d))"
proof -
  from req obtain usr where usr: "findById (users db) uid = Some usr"
    and wid: "wid = length (withdrawals db)"
    and w: "w = \<lparr>withdrawal.userId = uid, amount = amt, walletAddress = jsTrim wallet,
          withdrawal.status = Pending, approvalDate = None, adminId = None\<rparr>"
    and db1: "db1 = db\<lparr>withdrawals := withdrawals db @ [w],
              users := (users db)[uid := usr\<lparr>balance := toDouble (balance usr - amt),
                               withdrawalHistory := withdrawalHistory usr @ [wid]\<rparr>]\<rparr>"
    by (rule request_success)
  from usr have uid: "uid < length (users db)" "users db ! uid = usr"
    by (simp_all add: findById_Some)
  have debit: "balance (users db1 ! uid) = toDouble (balance (users db ! uid) - amt)"
    using uid by (simp add: db1)
  have found: "findById (withdrawals db1) wid = Some w"
    by (simp add: db1 wid findById_def)
  have pend: "withdrawal.status w = Pending" and amt: "amount w = amt"
    and own: "withdrawal.userId w = uid"
    by (simp_all add: w)
  have owner1: "findById (users db1) (withdrawal.userId w) = Some (users db1 ! uid)"
    using uid by (simp add: own db1 findById_def)
  have rej_ok: "\<not> isl (fst (rejectWithdrawal t a wid db1))"
    by (simp add: reject_pending(1)[OF found pend])
  have rej_bal: "balance (users (snd (rejectWithdrawal t a wid db1)) ! uid)
                   = toDouble (toDouble (balance (users db ! uid) - amt) + amt)"
  proof -
    have "users (snd (rejectWithdrawal t a wid db1))
            = (users db1)[uid := (users db1 ! uid)
                 \<lparr>balance := toDouble (balance (users db1 ! uid) + amt)\<rparr>]"
      using reject_pending(3)[OF found pend, of t a] owner1 own amt by simp
    then show ?thesis using uid by (simp add: db1)
  qed
  have restore: "balance (users (snd (rejectWithdrawal t a wid db1)) ! uid) = balance (users db ! uid)"
    if "toDouble (balance (users db ! uid)) = balance (users db ! uid)
        \<and> toDouble (balance (users db ! uid) - amt) = balance (users db ! uid) - amt"
    using rej_bal that by simp
  have app: "\<not> isl (fst (approveWithdrawal t a wid db1))"
    "users (snd (approveWithdrawal t a wid db1)) = users db1"
    by (simp_all add: approve_pending[OF found pend])
  note again = decided_stays_decided[OF found pend, of t' a' t a]
  have later: "\<forall>d k w0 u0.
             findById (withdrawals d) k = Some w0 \<and> withdrawal.status w0 = Pending
             \<and> findById (users d) (withdrawal.userId w0) = Some u0
             \<longrightarrow> balance (users (snd (rejectWithdrawal t a k d)) ! withdrawal.userId w0)
                   = toDouble (balance u0 + amount w0)
                 \<and> users (snd (approveWithdrawal t a k d)) = users d"
  proof (intro allI impI, elim conjE)
    fix d :: ledger and k and w0 :: withdrawal and u0 :: user
    assume f: "findById (withdrawals d) k = Some w0" and p: "withdrawal.status w0 = Pending"
       and u: "findById (users d) (withdrawal.userId w0) = Some u0"
    from u have lt: "withdrawal.userId w0 < length (users d)" by (simp add: findById_Some)
    show "balance (users (snd (rejectWithdrawal t a k d)) ! withdrawal.userId w0)
                   = toDouble (balance u0 + amount w0)
                 \<and> users (snd (approveWithdrawal t a k d)) = users d"
      using lt by (simp add: reject_pending(3)[OF f p] approve_pending[OF f p] u)
  qed
  have only: "\<forall>d k w0.
             findById (withdrawals d) k = Some w0 \<and> withdrawal.status w0 \<noteq> Pending
             \<longrightarrow> approveWithdrawal t a k d = (Inl NotPending, d)
                 \<and> rejectWithdrawal t a k d = (Inl NotPending, d)"
    by (auto simp: not_pending_refused)
  have blank: "\<forall>d u x wl.
             (jsTrim wl = [] \<longrightarrow> isl (fst (requestWithdrawal t u x wl d)))
             \<and> (isl (fst (requestWithdrawal t u x wl d))
                  \<longrightarrow> snd (requestWithdrawal t u x wl d) = d)"
    by (simp add: request_blank_wallet request_refused_writes_nothing)
  from debit found pend amt own rej_ok rej_bal restore app again later only blank show ?thesis
    by blast
qed

theorem withdrawal_lifecycle_witness:
  "\<not> isl (fst (requestWithdrawal 36000000 0 200 ''M-Pesa 840000001'' ledgerAR))
   \<and> balance (users ledgerAR ! 0) = 1000
   \<and> balance (users (snd (requestWithdrawal 36000000 0 200 ''M-Pesa 840000001'' ledgerAR)) ! 0) = 800
   \<and> balance (users (snd (rejectWithdrawal 36000001 1 0
        (snd (requestWithdrawal 36000000 0 200 ''M-Pesa 840000001'' ledgerAR)))) ! 0) = 1000
   \<and> balance (users (snd (approveWithdrawal 36000001 1 0
        (snd (requestWithdrawal 36000000 0 200 ''M-Pesa 840000001'' ledgerAR)))) ! 0) = 800
   \<and> balance (users (snd (requestWithdrawal 36000000 0 (5404319552844595 / 4503599627370496)
                            ''M-Pesa 840000001'' ledgerFractional)) ! 0)
       = 2476979795053773 / 1125899906842624
   \<and> balance (users (snd (rejectWithdrawal 36000001 1 0
                          (snd (requestWithdrawal 36000000 0 (5404319552844595 / 4503599627370496)
                                  ''M-Pesa 840000001'' ledgerFractional)))) ! 0)
       = 1914029841632461 / 562949953421312
   \<and> fst (requestWithdrawal 36000000 0 200 ''   '' ledgerAR) = Inl ServerError"
proof -
  note L = withdrawal_lifecycle[OF request_eval, of 36000001 1 36000002 1]
  have b0: "balance (users ledgerAR ! 0) = 1000" by (simp add: example_defs)
  from L b0 request_fractional_examples show ?thesis
    by (simp add: request_eval double_facts)
qed

subsection \<open>Registration from a known device\<close>

lemma blockAccounts_length [simp]: "length (blockAccounts ids us) = length us"
  by (induction ids arbitrary: us) auto

lemma blockAccounts_nth:
  "j < length us \<Longrightarrow>
     blockAccounts ids us ! j
       = (if j \<in> set ids \<and> user.status (us ! j) = Active
          then (us ! j)\<lparr>user.status := Blocked\<rparr> else us ! j)"
proof (induction ids arbitrary: us)
  case Nil
  then show ?case by simp
next
  case (Cons i ids)
  then show ?case by (cases "j = i") (auto simp: nth_list_update)
qed

text \<open>
  Claim C10. A registration with the three required fields and a nine-digit phone number,
  from a visitor id some existing user already carries, is refused with status 403; no user
  is added; every account with that visitor id that was active is now blocked, every other
  account is as it was, and nothing else in the store changes.
\<close>

theorem register_duplicate_visitor:
  assumes "phone \<noteq> []" and "password \<noteq> []" and "visitor \<noteq> []" and "validPhoneNumber phone"
      and dup: "\<exists>u \<in> set (users db). visitorId u = visitor"
  shows "fst (registerUser phone password visitor inviteCode codes db) = Inl DuplicateVisitorId
       \<and> httpStatus DuplicateVisitorId = 403
       \<and> length (users (snd (registerUser phone password visitor inviteCode codes db)))
           = length (users db)
       \<and> (\<forall>j < length (users db).
            users (snd (registerUser phone password visitor inviteCode codes db)) ! j
              = (if visitorId (users db ! j) = visitor \<and> user.status (users db ! j) = Active
                 then (users db ! j)\<lparr>user.status := Blocked\<rparr> else users db ! j))
       \<and> (snd (registerUser phone password visitor inviteCode codes db))\<lparr>users := users db\<rparr> = db"
proof -
  let ?existing = "filter (\<lambda>i. visitorId (users db ! i) = visitor) [0..<length (users db)]"
  from dup obtain i where "i < length (users db)" "visitorId (users db ! i) = visitor"
    by (auto simp: in_set_conv_nth)
  then have "i \<in> set ?existing" by simp
  then have ne: "?existing \<noteq> []" by (metis empty_iff empty_set)
  have run: "registerUser phone password visitor inviteCode codes db
               = (Inl DuplicateVisitorId, db\<lparr>users := blockAccounts ?existing (users db)\<rparr>)"
    using assms(1-4) ne by (simp add: registerUser_def Let_def)
  show ?thesis
    by (simp add: run blockAccounts_nth)
qed

theorem register_duplicate_visitor_witness:
  "validPhoneNumber ''840000009'' \<and> visitorId (users ledgerAR ! 0) = ''device-a''
   \<and> user.status (users ledgerAR ! 0) = Active
   \<and> fst (registerUser ''840000009'' ''secret1'' ''device-a'' None [''ZZZZZZZ1''] ledgerAR)
       = Inl DuplicateVisitorId
   \<and> users (snd (registerUser ''840000009'' ''secret1'' ''device-a'' None [''ZZZZZZZ1''] ledgerAR))
       = [userA\<lparr>user.status := Blocked\<rparr>, userR]"
proof -
  have v: "validPhoneNumber ''840000009''" by (simp add: validPhoneNumber_def isDigit_def)
  have d: "\<exists>u \<in> set (users ledgerAR). visitorId u = ''device-a''"
    by (simp add: example_defs)
  have n: "''840000009'' \<noteq> []" "''secret1'' \<noteq> []" "''device-a'' \<noteq> []" by simp_all
  note R = register_duplicate_visitor[OF n v d, of None "[''ZZZZZZZ1'']"]
  have l: "length (users ledgerAR) = 2" "users ledgerAR ! 0 = userA" "users ledgerAR ! 1 = userR"
    by (simp_all add: ledgerAR_def)
  have a: "visitorId userA = ''device-a''" "user.status userA = Active" "visitorId userR \<noteq> ''device-a''"
    by (simp_all add: userA_def userR_def)
  from R have len: "length (users (snd (registerUser ''840000009'' ''secret1'' ''device-a'' None [''ZZZZZZZ1''] ledgerAR))) = 2"
    and nth: "\<forall>j<2. users (snd (registerUser ''840000009'' ''secret1'' ''device-a'' None [''ZZZZZZZ1''] ledgerAR)) ! j
              = (if visitorId (users ledgerAR ! j) = ''device-a'' \<and> user.status (users ledgerAR ! j) = Active
                 then (users ledgerAR ! j)\<lparr>user.status := Blocked\<rparr> else users ledgerAR ! j)"
    by (simp_all add: l)
  from nth have "users (snd (registerUser ''840000009'' ''secret1'' ''device-a'' None [''ZZZZZZZ1''] ledgerAR)) ! 0 = userA\<lparr>user.status := Blocked\<rparr>"
    and "users (snd (registerUser ''840000009'' ''secret1'' ''device-a'' None [''ZZZZZZZ1''] ledgerAR)) ! 1 = userR"
    using a l by auto
  with len have "users (snd (registerUser ''840000009'' ''secret1'' ''device-a'' None [''ZZZZZZZ1''] ledgerAR))
       = [userA\<lparr>user.status := Blocked\<rparr>, userR]"
    by (auto simp: list_eq_iff_nth_eq less_Suc_eq numeral_2_eq_2)
  with R v l a show ?thesis by simp
qed

subsection \<open>The daily batch\<close>

lemma creditDailyCommission_fields [simp]:
  "investments (creditDailyCommission p r usr profit db) = investments db"
  "plans (creditDailyCommission p r usr profit db) = plans db"
  "withdrawals (creditDailyCommission p r usr profit db) = withdrawals db"
  "adminConfig (creditDailyCommission p r usr profit db) = adminConfig db"
  "length (users (creditDailyCommission p r usr profit db)) = length (users db)"
  by (simp_all add: creditDailyCommission_def split: option.splits)

lemma map_update_same: "f v = f (xs ! i) \<Longrightarrow> map f (xs[i := v]) = map f xs"
proof (induction xs arbitrary: i)
  case Nil
  then show ?case by simp
next
  case (Cons x xs)
  then show ?case by (cases i) auto
qed

lemma creditDailyCommission_status [simp]:
  "map user.status (users (creditDailyCommission p r usr profit db)) = map user.status (users db)"
  by (simp add: creditDailyCommission_def map_update_same split: option.splits)

lemma creditDailyCommission_active [simp]:
  "map activeInvestments (users (creditDailyCommission p r usr profit db))
     = map activeInvestments (users db)"
  by (simp add: creditDailyCommission_def map_update_same split: option.splits)

lemma ownerUsable_docs:
  "(case findById docs uid of None \<Rightarrow> False | Some usr \<Rightarrow> user.status usr \<noteq> Blocked)
     = ownerUsable (map user.status docs) uid"
  by (simp add: findById_def ownerUsable_def)

lemma step_investments:
  "investments (fst (processInvestment today p r st item))
     = (investments (fst st))[fst item :=
          rowAfter today (map user.status (snd st)) (snd item) (investments (fst st) ! fst item)]"
  by (simp add: processInvestment_def Let_def ownerUsable_docs rowAfter_def completeInvestment_def)

lemma step_docs_status:
  "map user.status (snd (processInvestment today p r st item)) = map user.status (snd st)"
  by (simp add: processInvestment_def Let_def ownerUsable_docs map_update_same)

lemma step_users_status:
  "map user.status (users (fst (processInvestment today p r st item)))
     = map user.status (users (fst st))"
  by (simp add: processInvestment_def Let_def ownerUsable_docs map_update_same completeInvestment_def)

lemma step_other_fields:
  "plans (fst (processInvestment today p r st item)) = plans (fst st)"
  "withdrawals (fst (processInvestment today p r st item)) = withdrawals (fst st)"
  "adminConfig (fst (processInvestment today p r st item)) = adminConfig (fst st)"
  by (simp_all add: processInvestment_def Let_def completeInvestment_def)


lemma step_lengths [simp]:
  "length (investments (fst (processInvestment today p r st item))) = length (investments (fst st))"
  "length (snd (processInvestment today p r st item)) = length (snd st)"
  "length (users (fst (processInvestment today p r st item))) = length (users (fst st))"
  using step_docs_status[of today p r st item, THEN arg_cong, of length]
        step_users_status[of today p r st item, THEN arg_cong, of length]
  by (simp_all add: step_investments)

lemma fold_status:
  "map user.status (snd (foldl (processInvestment today p r) st due)) = map user.status (snd st)"
  "map user.status (users (fst (foldl (processInvestment today p r) st due)))
     = map user.status (users (fst st))"
  "length (investments (fst (foldl (processInvestment today p r) st due)))
     = length (investments (fst st))"
  by (induction due arbitrary: st) (simp_all add: step_docs_status step_users_status)

lemma fold_rows:
  assumes "distinct (map fst due)" and "j < length (investments (fst st))"
  shows "investments (fst (foldl (processInvestment today p r) st due)) ! j
           = (case map_of due j of
                None \<Rightarrow> investments (fst st) ! j
              | Some ivt \<Rightarrow> rowAfter today (map user.status (snd st)) ivt (investments (fst st) ! j))"
  using assms
proof (induction due arbitrary: st)
  case Nil
  then show ?case by simp
next
  case (Cons x xs)
  let ?st = "processInvestment today p r st x"
  from Cons.prems have d: "distinct (map fst xs)" and nx: "fst x \<notin> fst ` set xs" by auto
  have j: "j < length (investments (fst ?st))" using Cons.prems by simp
  have none: "map_of xs (fst x) = None" using nx by (simp add: map_of_eq_None_iff)
  have "investments (fst (foldl (processInvestment today p r) st (x # xs))) ! j
          = (case map_of xs j of
               None \<Rightarrow> investments (fst ?st) ! j
             | Some ivt \<Rightarrow> rowAfter today (map user.status (snd st)) ivt (investments (fst ?st) ! j))"
    using Cons.IH[OF d j] unfolding step_docs_status by simp
  also have "\<dots> = (case map_of (x # xs) j of
                None \<Rightarrow> investments (fst st) ! j
              | Some ivt \<Rightarrow> rowAfter today (map user.status (snd st)) ivt (investments (fst st) ! j))"
    using Cons.prems(2) none
    by (cases x) (auto simp: step_investments nth_list_update split: option.splits)
  finally show ?case .
qed

lemma map_of_tabulate:
  "map_of (map (\<lambda>k. (k, f k)) ks) j = (if j \<in> set ks then Some (f j) else None)"
  by (induction ks) auto

lemma findDue_distinct: "distinct (map fst (findDue today ivts))"
  by (simp add: findDue_def comp_def)

lemma findDue_map_of:
  "map_of (findDue today ivts) j
     = (if j < length ivts \<and> dueForCredit today (ivts ! j) then Some (ivts ! j) else None)"
  by (auto simp: findDue_def map_of_tabulate)

lemma batch_rows:
  assumes "j < length (investments db)"
  shows "investments (processDailyProfitsAndCommissions now db) ! j
           = (if dueForCredit (startOfDay now) (investments db ! j)
              then rowAfter (startOfDay now) (map user.status (users db))
                     (investments db ! j) (investments db ! j)
              else investments db ! j)"
  using assms
  by (simp add: processDailyProfitsAndCommissions_def Let_def
        fold_rows[OF findDue_distinct] findDue_map_of)

lemma batch_status:
  "map user.status (users (processDailyProfitsAndCommissions now db)) = map user.status (users db)"
  "length (investments (processDailyProfitsAndCommissions now db)) = length (investments db)"
  by (simp_all add: processDailyProfitsAndCommissions_def Let_def fold_status)


lemma step_skip:
  assumes "\<not> ownerUsable (map user.status (snd st)) (investment.userId (snd item))"
      and "today < endDate (snd item)"
  shows "processInvestment today p r st item = st"
  using assms by (simp add: processInvestment_def Let_def ownerUsable_docs)

lemma fold_noop:
  "(\<And>x. x \<in> set due \<Longrightarrow> f st x = st) \<Longrightarrow> foldl f st due = st"
  by (induction due) simp_all

lemma due_after_batch:
  assumes k: "k < length (investments db)"
      and due: "dueForCredit (startOfDay now) (investments (processDailyProfitsAndCommissions now db) ! k)"
  shows "investments (processDailyProfitsAndCommissions now db) ! k = investments db ! k"
    and "\<not> ownerUsable (map user.status (users db)) (investment.userId (investments db ! k))"
    and "startOfDay now < endDate (investments db ! k)"
proof -
  let ?row = "investments db ! k" and ?today = "startOfDay now"
  let ?sts = "map user.status (users db)"
  note rows = batch_rows[OF k, of now]
  have d0: "dueForCredit ?today ?row"
  proof (rule ccontr)
    assume "\<not> dueForCredit ?today ?row"
    with rows due show False by simp
  qed
  with rows have after: "investments (processDailyProfitsAndCommissions now db) ! k
                           = rowAfter ?today ?sts ?row ?row"
    by simp
  have late: "?today < endDate ?row"
  proof (rule ccontr)
    assume "\<not> ?today < endDate ?row"
    then have "investment.status (rowAfter ?today ?sts ?row ?row) = Completed"
      by (simp add: rowAfter_def)
    with due after show False by (simp add: dueForCredit_def)
  qed
  have unusable: "\<not> ownerUsable ?sts (investment.userId ?row)"
  proof
    assume "ownerUsable ?sts (investment.userId ?row)"
    with late have "lastProfitCreditDate (rowAfter ?today ?sts ?row ?row) = Some ?today"
      by (simp add: rowAfter_def)
    with due after show False by (simp add: dueForCredit_def)
  qed
  show "investments (processDailyProfitsAndCommissions now db) ! k = ?row"
    using after late unusable by (simp add: rowAfter_def)
  show "\<not> ownerUsable ?sts (investment.userId ?row)" by (rule unusable)
  show "?today < endDate ?row" by (rule late)
qed

lemma second_run_identity:
  assumes "startOfDay now' = startOfDay now"
  shows "processDailyProfitsAndCommissions now' (processDailyProfitsAndCommissions now db)
           = processDailyProfitsAndCommissions now db"
proof -
  let ?db' = "processDailyProfitsAndCommissions now db" and ?today = "startOfDay now"
  have "foldl (processInvestment ?today p r) (?db', users ?db') (findDue ?today (investments ?db'))
          = (?db', users ?db')" for p r
  proof (rule fold_noop)
    fix x assume "x \<in> set (findDue ?today (investments ?db'))"
    then obtain k where x: "x = (k, investments ?db' ! k)" and k: "k < length (investments db)"
      and due: "dueForCredit ?today (investments ?db' ! k)"
      by (auto simp: findDue_def batch_status)
    note same = due_after_batch[OF k due]
    show "processInvestment ?today p r (?db', users ?db') x = (?db', users ?db')"
      by (rule step_skip) (simp_all add: x same batch_status)
  qed
  then show ?thesis
    unfolding processDailyProfitsAndCommissions_def[of now' ?db'] by (simp add: assms Let_def)
qed

lemma map_update_to:
  "map f xs = map f ys \<Longrightarrow> f v = f w \<Longrightarrow> map f (xs[i := v]) = map f (ys[i := w])"
  by (simp add: map_update)

lemma map_list_update_id [simp]: "(map f xs)[i := f (xs ! i)] = map f xs"
  by (metis list_update_id map_update)

lemma step_docs_active:
  "map activeInvestments (snd (processInvestment today p r st item))
     = (if ownerUsable (map user.status (snd st)) (investment.userId (snd item))
           \<and> endDate (snd item) \<le> today
        then (map activeInvestments (snd st))[investment.userId (snd item) :=
               filter (\<lambda>i. i \<noteq> fst item)
                 (activeInvestments (snd st ! investment.userId (snd item)))]
        else map activeInvestments (snd st))"
  by (simp add: processInvestment_def Let_def ownerUsable_docs map_update map_update_same)

lemma step_users_active:
  assumes "docsAgree st"
  shows "map activeInvestments (users (fst (processInvestment today p r st item)))
     = (if ownerUsable (map user.status (snd st)) (investment.userId (snd item))
           \<and> endDate (snd item) \<le> today
        then (map activeInvestments (snd st))[investment.userId (snd item) :=
               filter (\<lambda>i. i \<noteq> fst item)
                 (activeInvestments (snd st ! investment.userId (snd item)))]
        else map activeInvestments (snd st))"
proof -
  from assms have eq: "map activeInvestments (users (fst st)) = map activeInvestments (snd st)"
    by (simp add: docsAgree_def)
  let ?uid = "investment.userId (snd item)"
  let ?rem = "filter (\<lambda>i. i \<noteq> fst item) (activeInvestments (snd st ! ?uid))"
  show ?thesis
  proof (cases "ownerUsable (map user.status (snd st)) ?uid")
    case False
    then show ?thesis using eq
      by (simp add: processInvestment_def Let_def ownerUsable_docs completeInvestment_def)
  next
    case True
    then have uid: "?uid < length (snd st)" by (simp add: ownerUsable_def)
    show ?thesis
    proof (cases "endDate (snd item) \<le> today")
      case mature: True
      have keep: "(map activeInvestments (snd st))[?uid := ?rem] = map activeInvestments (snd st)"
        if "?rem = activeInvestments (snd st ! ?uid)"
        using that uid by (simp add: list_update_same_conv)
      show ?thesis using True mature keep
        by (simp add: processInvestment_def Let_def ownerUsable_docs completeInvestment_def
              map_update eq)
    next
      case accrue: False
      show ?thesis using True accrue
        by (simp add: processInvestment_def Let_def ownerUsable_docs map_update_same eq)
    qed
  qed
qed

lemma step_docsAgree:
  assumes "docsAgree st"
  shows "docsAgree (processInvestment today p r st item)"
  unfolding docsAgree_def step_docs_active step_users_active[OF assms] ..

lemma step_active_subset:
  assumes "k \<notin> set (activeInvestments (snd st ! u))" and "u < length (snd st)"
  shows "k \<notin> set (activeInvestments (snd (processInvestment today p r st item) ! u))"
proof -
  have "activeInvestments (snd (processInvestment today p r st item) ! u)
          = map activeInvestments (snd (processInvestment today p r st item)) ! u"
    using assms(2) by simp
  also have "set \<dots> \<subseteq> set (activeInvestments (snd st ! u))"
    using assms(2) by (auto simp: step_docs_active nth_list_update ownerUsable_def)
  finally show ?thesis using assms(1) by blast
qed

lemma step_detaches:
  assumes "ownerUsable (map user.status (snd st)) (investment.userId ivt)"
      and "endDate ivt \<le> today"
  shows "k \<notin> set (activeInvestments
                    (snd (processInvestment today p r st (k, ivt)) ! investment.userId ivt))"
proof -
  from assms(1) have uid: "investment.userId ivt < length (snd st)" by (simp add: ownerUsable_def)
  have "activeInvestments (snd (processInvestment today p r st (k, ivt)) ! investment.userId ivt)
          = map activeInvestments (snd (processInvestment today p r st (k, ivt))) ! investment.userId ivt"
    using uid by simp
  also have "\<dots> = filter (\<lambda>i. i \<noteq> k) (activeInvestments (snd st ! investment.userId ivt))"
    using assms uid by (simp add: step_docs_active)
  finally show ?thesis by simp
qed

lemma fold_docsAgree:
  "docsAgree st \<Longrightarrow> docsAgree (foldl (processInvestment today p r) st due)"
  by (induction due arbitrary: st) (simp_all add: step_docsAgree)

lemma fold_active_subset:
  "k \<notin> set (activeInvestments (snd st ! u)) \<Longrightarrow> u < length (snd st) \<Longrightarrow>
     k \<notin> set (activeInvestments (snd (foldl (processInvestment today p r) st due) ! u))"
  by (induction due arbitrary: st) (simp_all add: step_active_subset)

lemma fold_detaches:
  assumes "(k, ivt) \<in> set due"
      and "ownerUsable (map user.status (snd st)) (investment.userId ivt)"
      and "endDate ivt \<le> today"
  shows "k \<notin> set (activeInvestments
                    (snd (foldl (processInvestment today p r) st due) ! investment.userId ivt))"
  using assms
proof (induction due arbitrary: st)
  case Nil
  then show ?case by simp
next
  case (Cons x xs)
  let ?st = "processInvestment today p r st x"
  have uid: "investment.userId ivt < length (snd st)"
    using Cons.prems(2) by (simp add: ownerUsable_def)
  show ?case
  proof (cases "x = (k, ivt)")
    case True
    have "k \<notin> set (activeInvestments (snd ?st ! investment.userId ivt))"
      unfolding True by (rule step_detaches) (use Cons.prems in simp_all)
    then show ?thesis using uid by (simp add: fold_active_subset)
  next
    case False
    with Cons.prems have "(k, ivt) \<in> set xs" by simp
    moreover have "ownerUsable (map user.status (snd ?st)) (investment.userId ivt)"
      using Cons.prems(2) by (simp add: step_docs_status)
    ultimately show ?thesis using Cons.IH[of ?st] Cons.prems(3) by simp
  qed
qed

lemma batch_detaches:
  assumes k: "k < length (investments db)"
      and due: "dueForCredit (startOfDay now) (investments db ! k)"
      and mature: "endDate (investments db ! k) \<le> startOfDay now"
      and usable: "ownerUsable (map user.status (users db)) (investment.userId (investments db ! k))"
  shows "k \<notin> set (activeInvestments
                    (users (processDailyProfitsAndCommissions now db)
                       ! investment.userId (investments db ! k)))"
proof -
  let ?today = "startOfDay now" and ?uid = "investment.userId (investments db ! k)"
  define p where "p = (case adminConfig db of Some cfg \<Rightarrow> isPromotionActive cfg | None \<Rightarrow> False)"
  define r where "r = (case adminConfig db of Some cfg \<Rightarrow> commissionOnDailyProfit cfg | None \<Rightarrow> 0)"
  let ?fin = "foldl (processInvestment ?today p r) (db, users db) (findDue ?today (investments db))"
  have run: "processDailyProfitsAndCommissions now db = fst ?fin"
    by (simp add: processDailyProfitsAndCommissions_def Let_def p_def r_def)
  have mem: "(k, investments db ! k) \<in> set (findDue ?today (investments db))"
    using k due by (simp add: findDue_def)
  have docs: "k \<notin> set (activeInvestments (snd ?fin ! ?uid))"
    by (rule fold_detaches[OF mem]) (use usable mature in simp_all)
  have "docsAgree ?fin" by (rule fold_docsAgree) (simp add: docsAgree_def)
  then have eq: "map activeInvestments (users (fst ?fin)) = map activeInvestments (snd ?fin)"
    by (simp add: docsAgree_def)
  have "?uid < length (snd ?fin)"
    using usable fold_status(1)[of ?today p r "(db, users db)" "findDue ?today (investments db)",
                 THEN arg_cong, of length]
    by (simp add: ownerUsable_def)
  then have lt: "?uid < length (snd ?fin)" "?uid < length (users (fst ?fin))"
    using eq[THEN arg_cong, of length] by simp_all
  have "activeInvestments (users (fst ?fin) ! ?uid)
          = map activeInvestments (users (fst ?fin)) ! ?uid"
    using lt by simp
  also have "\<dots> = map activeInvestments (snd ?fin) ! ?uid" by (simp only: eq)
  also have "\<dots> = activeInvestments (snd ?fin ! ?uid)" using lt by simp
  finally show ?thesis using docs by (simp add: run)
qed

lemmas batch_defs = processDailyProfitsAndCommissions_def findDue_def dueForCredit_def
  processInvestment_def creditDailyCommission_def completeInvestment_def startOfDay_def
  findById_def findOneByReferralCode_def Let_def

lemma completed_row_untouched:
  assumes "k < length (investments d)" and "investment.status (investments d ! k) = Completed"
  shows "investments (processDailyProfitsAndCommissions t d) ! k = investments d ! k"
  using assms by (simp add: batch_rows dueForCredit_def)

lemma runBatches_completed:
  assumes "k < length (investments d)" and "investment.status (investments d ! k) = Completed"
  shows "investments (runBatches nows d) ! k = investments d ! k"
  using assms
proof (induction nows arbitrary: d)
  case Nil
  then show ?case by (simp add: runBatches_def)
next
  case (Cons t ts)
  let ?d = "processDailyProfitsAndCommissions t d"
  have row: "investments ?d ! k = investments d ! k"
    by (rule completed_row_untouched) fact+
  have "investments (runBatches ts ?d) ! k = investments ?d ! k"
    by (rule Cons.IH) (simp_all add: batch_status row Cons.prems)
  then show ?case by (simp add: runBatches_def row)
qed

lemma step_mature_no_credit:
  assumes "endDate (snd item) \<le> today"
  shows "map balance (users (fst (processInvestment today p r st item)))
           = map balance (users (fst st))"
  using assms
  by (simp add: processInvestment_def Let_def completeInvestment_def map_update_same)

lemma accrued_row:
  assumes "k < length (investments db)"
      and "dueForCredit (startOfDay now) (investments db ! k)"
      and "startOfDay now < endDate (investments db ! k)"
      and "ownerUsable (map user.status (users db)) (investment.userId (investments db ! k))"
  shows "currentProfit (investments (processDailyProfitsAndCommissions now db) ! k)
           = currentProfit (investments db ! k)
             + investedAmount (investments db ! k) * investment.dailyProfitRate (investments db ! k)"
    and "lastProfitCreditDate (investments (processDailyProfitsAndCommissions now db) ! k)
           = Some (startOfDay now)"
  using assms by (simp_all add: batch_rows rowAfter_def)

lemma nth_update_field:
  "f (g (xs ! i)) = f (xs ! i) \<Longrightarrow> f (xs[i := g (xs ! i)] ! j) = f (xs ! j)"
  by (cases "i < length xs") (auto simp: nth_list_update list_update_beyond)

lemma step_unusable_no_credit:
  assumes "\<not> ownerUsable (map user.status (snd st)) (investment.userId (snd item))"
  shows "users (fst (processInvestment today p r st item)) = users (fst st)"
    and "snd (processInvestment today p r st item) = snd st"
    and "currentProfit (investments (fst (processInvestment today p r st item)) ! j)
           = currentProfit (investments (fst st) ! j)"
proof -
  show "users (fst (processInvestment today p r st item)) = users (fst st)"
    by (simp add: assms processInvestment_def Let_def ownerUsable_docs completeInvestment_def)
  show "snd (processInvestment today p r st item) = snd st"
    by (simp add: assms processInvestment_def Let_def ownerUsable_docs)
  show "currentProfit (investments (fst (processInvestment today p r st item)) ! j)
           = currentProfit (investments (fst st) ! j)"
    by (simp add: assms step_investments rowAfter_def nth_update_field)
qed

lemma accrual_step_current_document:
  assumes usable: "ownerUsable (map user.status docs) (investment.userId ivt)"
      and running: "today < endDate ivt"
      and current: "balance (docs ! investment.userId ivt) = balance (users db ! investment.userId ivt)"
      and len: "length docs = length (users db)"
      and invited: "invitedBy (docs ! investment.userId ivt) = Some code" "code \<noteq> []"
      and referrer: "findOneByReferralCode (users db) code = Some rid"
                    "rid \<noteq> investment.userId ivt" "user.status (users db ! rid) = Active"
      and promo: "p" "0 < r"
  shows "balance (users (fst (processInvestment today p r (db, docs) (k, ivt))) ! investment.userId ivt)
           = balance (users db ! investment.userId ivt)
             + investedAmount ivt * investment.dailyProfitRate ivt"
    and "balance (users (fst (processInvestment today p r (db, docs) (k, ivt))) ! rid)
           = balance (users db ! rid)
             + investedAmount ivt * investment.dailyProfitRate ivt * r"
proof -
  from usable len have uid: "investment.userId ivt < length (users db)"
    by (simp add: ownerUsable_def)
  from referrer(1) have rid: "rid < length (users db)" by (rule findOneByReferralCode_less)
  show "balance (users (fst (processInvestment today p r (db, docs) (k, ivt))) ! investment.userId ivt)
           = balance (users db ! investment.userId ivt)
             + investedAmount ivt * investment.dailyProfitRate ivt"
    using usable running current invited referrer promo uid rid
    by (simp add: processInvestment_def Let_def ownerUsable_docs creditDailyCommission_def)
  show "balance (users (fst (processInvestment today p r (db, docs) (k, ivt))) ! rid)
           = balance (users db ! rid)
             + investedAmount ivt * investment.dailyProfitRate ivt * r"
    using usable running current invited referrer promo uid rid
    by (simp add: processInvestment_def Let_def ownerUsable_docs creditDailyCommission_def)
qed

subsection \<open>Invariants of the stored data\<close>

lemma matured_is_due:
  assumes "investment.status ivt = InvestmentActive" and "creditedBeforeEnd ivt"
      and "endDate ivt \<le> today"
  shows "dueForCredit today ivt"
  using assms by (auto simp: dueForCredit_def creditedBeforeEnd_def split: option.splits)

lemma activate_creditedBeforeEnd:
  assumes "activateInvestment now uid (Some pid) db = (Inr (iid, ivt), db')"
      and "plans db pid = Some plan" and "0 < durationDays plan"
  shows "creditedBeforeEnd ivt"
  using assms by (auto elim!: activate_success simp: creditedBeforeEnd_def addDays_def)

lemma upgrade_creditedBeforeEnd:
  assumes "upgradeInvestment now uid (Some newPid) db = (Inr ivt', db')"
      and "plans db newPid = Some newPlan" and "0 < durationDays newPlan"
  shows "creditedBeforeEnd ivt'"
  using assms by (auto elim!: upgrade_success simp: creditedBeforeEnd_def addDays_def)

lemma batch_creditedBeforeEnd:
  assumes "k < length (investments db)" and "creditedBeforeEnd (investments db ! k)"
  shows "creditedBeforeEnd (investments (processDailyProfitsAndCommissions now db) ! k)"
  using assms
  by (auto simp: batch_rows rowAfter_def creditedBeforeEnd_def split: option.splits)

lemma findIndex_append:
  "findIndex P xs = Some i \<Longrightarrow> findIndex P (xs @ ys) = Some i"
  by (induction xs arbitrary: i) (auto split: if_splits)

lemma findIndex_None: "findIndex P xs = None \<longleftrightarrow> (\<forall>x \<in> set xs. \<not> P x)"
  by (induction xs) auto

lemma register_no_self_referral:
  assumes run: "registerUser phone password visitor inviteCode codes db = (Inr newId, db')"
  shows "newId = length (users db)"
    and "findById (users db') newId \<noteq> None"
    and "\<forall>code. invitedBy (users db' ! newId) = Some code
            \<longrightarrow> findOneByReferralCode (users db') code \<noteq> Some newId"
proof -
  let ?free = "dropWhile (\<lambda>c. findOneByReferralCode (users db) c \<noteq> None) codes"
  let ?inviting = "resolveInviter (users db) visitor inviteCode"
  from run obtain code rest where free: "?free = code # rest"
    by (auto simp: registerUser_def Let_def split: if_splits list.splits)
  define newUser where "newUser = \<lparr>phoneNumber = phone, balance = 0, user.status = Active,
                             visitorId = visitor, referralCode = Some code,
                             invitedBy = (case ?inviting of
                                            None \<Rightarrow> None
                                          | Some rid \<Rightarrow> referralCode (users db ! rid)),
                             referredUsers = [], activeInvestments = [],
                             withdrawalHistory = []\<rparr>"
  define us1 where "us1 = users db @ [newUser]"
  define us2 where "us2 = (case ?inviting of
                           None \<Rightarrow> us1
                         | Some rid \<Rightarrow>
                             us1[rid := (us1 ! rid)
                                   \<lparr>referredUsers := referredUsers (us1 ! rid) @ [length (users db)]\<rparr>])"
  from run have conds: "phone \<noteq> []" "password \<noteq> []" "visitor \<noteq> []" "validPhoneNumber phone"
      "filter (\<lambda>i. visitorId (users db ! i) = visitor) [0..<length (users db)] = []"
      "findIndex (\<lambda>u. phoneNumber u = phone) (users db) = None"
    by (auto simp: registerUser_def Let_def split: if_splits list.splits)
  have full: "registerUser phone password visitor inviteCode codes db
                = (Inr (length (users db)), db\<lparr>users := us2\<rparr>)"
    unfolding registerUser_def Let_def newUser_def us1_def us2_def
    using conds free by simp
  with run have res: "newId = length (users db)" "db' = db\<lparr>users := us2\<rparr>"
    by simp_all
  show "newId = length (users db)" by (rule res)
  have inv_lt: "rid < length (users db)" if "?inviting = Some rid" for rid
    using that
    by (auto simp: resolveInviter_def split: option.splits if_splits dest: findOneByReferralCode_less)
  have codes2: "map referralCode us2 = map referralCode us1"
    by (auto simp: us2_def map_update list_update_same_conv split: option.splits)
  have find2: "findOneByReferralCode us2 c = findOneByReferralCode us1 c" for c
    unfolding us2_def findOneByReferralCode_def
    by (auto split: option.splits intro!: findIndex_update)
  have len2: "length us2 = Suc (length (users db))"
    by (simp add: us2_def us1_def split: option.splits)
  have new2: "us2 ! newId = newUser"
    using inv_lt by (auto simp: us2_def us1_def res split: option.splits)
  show "findById (users db') newId \<noteq> None"
    by (simp add: res findById_def len2)
  show "\<forall>code. invitedBy (users db' ! newId) = Some code
            \<longrightarrow> findOneByReferralCode (users db') code \<noteq> Some newId"
  proof (intro allI impI)
    fix c assume "invitedBy (users db' ! newId) = Some c"
    then have c: "invitedBy newUser = Some c" using new2 by (simp add: res)
    then obtain rid where rid: "?inviting = Some rid" and rc: "referralCode (users db ! rid) = Some c"
      by (auto simp: newUser_def split: option.splits)
    from inv_lt[OF rid] have lt: "rid < length (users db)" .
    with rc have "\<exists>u \<in> set (users db). referralCode u = Some c"
      by (metis nth_mem)
    then have "findIndex (\<lambda>u. referralCode u = Some c) (users db) \<noteq> None"
      by (simp add: findIndex_None)
    then obtain i where i: "findIndex (\<lambda>u. referralCode u = Some c) (users db) = Some i"
      by auto
    then have "i < length (users db)" by (auto dest: findIndex_Some)
    moreover have "findOneByReferralCode us1 c = Some i"
      by (simp add: findOneByReferralCode_def us1_def findIndex_append[OF i])
    ultimately show "findOneByReferralCode (users db') c \<noteq> Some newId"
      by (simp add: res(2) find2 res(1))
  qed
qed

lemma matured_example:
  "startOfDay 5270400000 = 5270400000"
  "investment.status (investments ledgerInvested ! 0) = InvestmentActive"
  "creditedBeforeEnd (investments ledgerInvested ! 0)"
  "endDate (investments ledgerInvested ! 0) \<le> 5270400000"
  "findById (users ledgerInvested) (investment.userId (investments ledgerInvested ! 0))
     = Some (users ledgerInvested ! 0)"
  "user.status (users ledgerInvested ! 0) \<noteq> Blocked"
  "0 < length (investments ledgerInvested)"
  by (simp_all add: startOfDay_def creditedBeforeEnd_def findById_def ledgerInvested_def
        investmentA_def userA_def)

text \<open>
  Claim C2. A second run of the batch on the same day (the same midnight) leaves the store
  exactly as the first run left it, so no balance and no accumulated profit changes: every
  investment the first run credited carries today's midnight as the date of its last credit
  and is no longer admitted by the query, which asks for a date strictly before today.
\<close>

theorem batch_idempotent_same_day:
  assumes "startOfDay now' = startOfDay now"
  shows "processDailyProfitsAndCommissions now' (processDailyProfitsAndCommissions now db)
           = processDailyProfitsAndCommissions now db
       \<and> (\<forall>k < length (investments db).
             dueForCredit (startOfDay now) (investments db ! k)
             \<and> startOfDay now < endDate (investments db ! k)
             \<and> ownerUsable (map user.status (users db)) (investment.userId (investments db ! k))
             \<longrightarrow> lastProfitCreditDate (investments (processDailyProfitsAndCommissions now db) ! k)
                   = Some (startOfDay now)
                 \<and> \<not> dueForCredit (startOfDay now')
                       (investments (processDailyProfitsAndCommissions now db) ! k))"
proof -
  have same: "processDailyProfitsAndCommissions now' (processDailyProfitsAndCommissions now db)
                = processDailyProfitsAndCommissions now db"
    by (rule second_run_identity) fact
  have gate: "\<forall>k < length (investments db).
             dueForCredit (startOfDay now) (investments db ! k)
             \<and> startOfDay now < endDate (investments db ! k)
             \<and> ownerUsable (map user.status (users db)) (investment.userId (investments db ! k))
             \<longrightarrow> lastProfitCreditDate (investments (processDailyProfitsAndCommissions now db) ! k)
                   = Some (startOfDay now)
                 \<and> \<not> dueForCredit (startOfDay now')
                       (investments (processDailyProfitsAndCommissions now db) ! k)"
  proof (intro allI impI)
    fix k
    assume k: "k < length (investments db)"
       and h: "dueForCredit (startOfDay now) (investments db ! k)
               \<and> startOfDay now < endDate (investments db ! k)
               \<and> ownerUsable (map user.status (users db)) (investment.userId (investments db ! k))"
    from h have "lastProfitCreditDate (investments (processDailyProfitsAndCommissions now db) ! k)
                   = Some (startOfDay now)"
      by (intro accrued_row(2)[OF k]) simp_all
    then show "lastProfitCreditDate (investments (processDailyProfitsAndCommissions now db) ! k)
                   = Some (startOfDay now)
                 \<and> \<not> dueForCredit (startOfDay now')
                       (investments (processDailyProfitsAndCommissions now db) ! k)"
      by (simp add: dueForCredit_def assms)
  qed
  from same gate show ?thesis by (rule conjI)
qed

theorem batch_idempotent_same_day_witness:
  "startOfDay 93600000 = startOfDay 90000000
   \<and> balance (users ledgerInvested ! 0) = 1500
   \<and> balance (users (processDailyProfitsAndCommissions 90000000 ledgerInvested) ! 0) = 1510
   \<and> processDailyProfitsAndCommissions 93600000 (processDailyProfitsAndCommissions 90000000 ledgerInvested)
       = processDailyProfitsAndCommissions 90000000 ledgerInvested"
proof -
  have s: "startOfDay 93600000 = startOfDay 90000000" by (simp add: startOfDay_def)
  have b: "balance (users ledgerInvested ! 0) = 1500"
    by (simp add: ledgerInvested_def userA_def)
  have c: "balance (users (processDailyProfitsAndCommissions 90000000 ledgerInvested) ! 0) = 1510"
    by (simp add: batch_defs ledgerInvested_def investmentA_def userA_def userR_def configDefault_def)
  from batch_idempotent_same_day[OF s, of ledgerInvested] s b c show ?thesis by simp
qed

text \<open>
  Claim C3. An active investment whose end date is on or before today and whose owner
  exists and is not blocked is completed by the run with its accumulated profit unchanged,
  and is gone from the owner's list of active investments; handling it changes no balance.
  No later run, on any day, changes its row or selects it again: it receives no further
  profit. The investment is one whose last credit lies before its end date, as every
  investment written by the controllers is (\<open>activate_creditedBeforeEnd\<close>,
  \<open>upgrade_creditedBeforeEnd\<close>, \<open>batch_creditedBeforeEnd\<close>); such an investment is
  selected by the query once its end date has come (\<open>matured_is_due\<close>).
\<close>

theorem matured_investment_completed:
  assumes k: "k < length (investments db)"
      and active: "investment.status (investments db ! k) = InvestmentActive"
      and before: "creditedBeforeEnd (investments db ! k)"
      and mature: "endDate (investments db ! k) \<le> startOfDay now"
      and owner: "findById (users db) (investment.userId (investments db ! k)) = Some owner"
      and usable: "user.status owner \<noteq> Blocked"
  shows "investment.status (investments (processDailyProfitsAndCommissions now db) ! k) = Completed
       \<and> currentProfit (investments (processDailyProfitsAndCommissions now db) ! k)
           = currentProfit (investments db ! k)
       \<and> k \<notin> set (activeInvestments (users (processDailyProfitsAndCommissions now db)
                                          ! investment.userId (investments db ! k)))
       \<and> (\<forall>p r st. map balance (users (fst (processInvestment (startOfDay now) p r st
                                                (k, investments db ! k))))
                      = map balance (users (fst st)))
       \<and> (\<forall>nows. investments (runBatches nows (processDailyProfitsAndCommissions now db)) ! k
                    = investments (processDailyProfitsAndCommissions now db) ! k)
       \<and> (\<forall>nows t. \<not> dueForCredit t
                        (investments (runBatches nows (processDailyProfitsAndCommissions now db)) ! k))"
proof -
  let ?db' = "processDailyProfitsAndCommissions now db"
  have due: "dueForCredit (startOfDay now) (investments db ! k)"
    by (rule matured_is_due) fact+
  have ou: "ownerUsable (map user.status (users db)) (investment.userId (investments db ! k))"
    using owner usable by (auto simp: ownerUsable_def findById_def split: if_splits)
  have row: "investments ?db' ! k = (investments db ! k)\<lparr>investment.status := Completed\<rparr>"
    using due mature by (simp add: batch_rows[OF k] rowAfter_def)
  have st: "investment.status (investments ?db' ! k) = Completed" by (simp add: row)
  have k': "k < length (investments ?db')" using k by (simp add: batch_status)
  have later: "investments (runBatches nows ?db') ! k = investments ?db' ! k" for nows
    by (rule runBatches_completed[OF k' st])
  have never: "\<not> dueForCredit t (investments (runBatches nows ?db') ! k)" for nows t
    by (simp add: later st dueForCredit_def)
  have detach: "k \<notin> set (activeInvestments (users ?db' ! investment.userId (investments db ! k)))"
    by (rule batch_detaches[OF k due mature ou])
  have nocredit: "map balance (users (fst (processInvestment (startOfDay now) p r st
                                                (k, investments db ! k))))
                      = map balance (users (fst st))" for p r st
    by (rule step_mature_no_credit) (simp add: mature)
  from st row detach nocredit later never show ?thesis by simp
qed

theorem matured_investment_completed_witness:
  "investment.status (investments ledgerInvested ! 0) = InvestmentActive
   \<and> creditedBeforeEnd (investments ledgerInvested ! 0)
   \<and> endDate (investments ledgerInvested ! 0) \<le> startOfDay 5270400000
   \<and> user.status (users ledgerInvested ! 0) \<noteq> Blocked
   \<and> activeInvestments (users ledgerInvested ! 0) = [0]
   \<and> investment.status (investments (processDailyProfitsAndCommissions 5270400000 ledgerInvested) ! 0)
       = Completed
   \<and> 0 \<notin> set (activeInvestments (users (processDailyProfitsAndCommissions 5270400000 ledgerInvested) ! 0))"
proof -
  note m = matured_example
  have a: "activeInvestments (users ledgerInvested ! 0) = [0]"
      and u: "investment.userId (investments ledgerInvested ! 0) = 0"
    by (simp_all add: ledgerInvested_def investmentA_def userA_def)
  from matured_investment_completed[of 0 ledgerInvested 5270400000 "users ledgerInvested ! 0"] m a u
  show ?thesis by simp
qed

text \<open>
  Claim C8, evaluated on the code. The only user is blocked and the investment has reached
  its end date: the run completes the investment and credits nothing, but the investment
  stays in the user's list of active investments, after this run and after the next
  day's. The branch for a missing or blocked owner saves the investment and moves on; only
  the branch for a usable owner filters the list.
\<close>

theorem blocked_owner_stays_attached:
  "user.status (users ledgerBlockedOwner ! 0) = Blocked
   \<and> investment.status (investments ledgerBlockedOwner ! 0) = InvestmentActive
   \<and> endDate (investments ledgerBlockedOwner ! 0) \<le> startOfDay 5270400000
   \<and> investment.status (investments (processDailyProfitsAndCommissions 5270400000 ledgerBlockedOwner) ! 0)
       = Completed
   \<and> activeInvestments (users (processDailyProfitsAndCommissions 5270400000 ledgerBlockedOwner) ! 0)
       = [0]
   \<and> processDailyProfitsAndCommissions 5356800000
        (processDailyProfitsAndCommissions 5270400000 ledgerBlockedOwner)
       = processDailyProfitsAndCommissions 5270400000 ledgerBlockedOwner"
  by (simp add: batch_defs ledgerBlockedOwner_def investmentA_def userA_def configDefault_def)

text \<open>
  Claim C5, evaluated on the code. R invited A and both hold a plan; A's investment comes
  first. While A's investment is handled R's stored balance rises from 100 to 100.2 by the
  commission. When R's own investment is handled, the balance saved for R is the one of
  the document loaded before the loop plus the profit, 110: the commission is overwritten,
  and R ends the run with 110 where profit and commission add up to 110.2. For a single
  pass of the loop whose owner document still carries the stored balance, profit and
  commission are added exactly (\<open>accrual_step_current_document\<close>), and the row of every
  credited investment gains exactly amount times rate and today's date (\<open>accrued_row\<close>).
\<close>

theorem referrer_commission_overwritten:
  "balance (users ledgerTwoInvestors ! 0) = 100
   \<and> balance (users (fst (processInvestment (startOfDay 86400000) True (1 / 50)
                            (ledgerTwoInvestors, users ledgerTwoInvestors)
                            (0, investments ledgerTwoInvestors ! 0))) ! 0) = 100 + 10 * (1 / 50)
   \<and> currentProfit (investments (processDailyProfitsAndCommissions 86400000 ledgerTwoInvestors) ! 0) = 10
   \<and> currentProfit (investments (processDailyProfitsAndCommissions 86400000 ledgerTwoInvestors) ! 1) = 10
   \<and> balance (users (processDailyProfitsAndCommissions 86400000 ledgerTwoInvestors) ! 1) = 500 + 10
   \<and> balance (users (processDailyProfitsAndCommissions 86400000 ledgerTwoInvestors) ! 0) = 110
   \<and> balance (users (processDailyProfitsAndCommissions 86400000 ledgerTwoInvestors) ! 0)
       \<noteq> 100 + 10 + 10 * (1 / 50)"
  by (simp add: batch_defs ledgerTwoInvestors_def investmentA_def userA_def userR_def
        configDefault_def upt_conv_Cons)

end
